theory Spec2Isabelle
  imports Complex_Main "HOL-Library.Word" "HOL-Library.Log_Nat"
begin

section \<open>JavaScript strings\<close>

text \<open>
  A JavaScript string is a sequence of UTF-16 code units; \<open>s.length\<close> counts code
  units and \<open>s.substring(0, n)\<close> keeps the first \<open>n\<close> of them.  String literals of
  the source are ASCII and are written through \<open>js\<close>.
\<close>

type_synonym jschar = "16 word"
type_synonym jsstring = "jschar list"

definition js :: "string \<Rightarrow> jsstring" where
  "js s = map of_char s"

text \<open>
  The class \<open>\s\<close> of a regular expression, which is also the set of characters that
  \<open>String.prototype.trim\<close> strips: the ECMAScript WhiteSpace and LineTerminator code
  points (TAB, LF, VT, FF, CR, SP, NBSP, U+1680, U+2000 to U+200A, U+2028, U+2029,
  U+202F, U+205F, U+3000, U+FEFF).
\<close>

definition isSpace :: "jschar \<Rightarrow> bool" where
  "isSpace c \<longleftrightarrow>
     c = 0x09 \<or> c = 0x0A \<or> c = 0x0B \<or> c = 0x0C \<or> c = 0x0D \<or> c = 0x20 \<or> c = 0xA0 \<or>
     c = 0x1680 \<or> (0x2000 \<le> c \<and> c \<le> 0x200A) \<or> c = 0x2028 \<or> c = 0x2029 \<or>
     c = 0x202F \<or> c = 0x205F \<or> c = 0x3000 \<or> c = 0xFEFF"

definition trim :: "jsstring \<Rightarrow> jsstring" where
  "trim s = rev (dropWhile isSpace (rev (dropWhile isSpace s)))"

text \<open>
  \<open>s.split(/\s+/)\<close>: the pieces of \<open>s\<close> between maximal runs of whitespace.  A run
  at the start or at the end of \<open>s\<close> leaves an empty piece there, and the empty string
  splits into one empty piece.
\<close>

function split_ws :: "jsstring \<Rightarrow> jsstring list" where
  "split_ws s =
     (let tok = takeWhile (\<lambda>c. \<not> isSpace c) s;
          rest = dropWhile (\<lambda>c. \<not> isSpace c) s
      in if rest = [] then [tok] else tok # split_ws (dropWhile isSpace rest))"
  by pat_completeness auto
termination
proof (relation "measure length")
  show "wf (measure length)" by simp
next
  fix s :: jsstring and tok rest
  assume r: "rest = dropWhile (\<lambda>c. \<not> isSpace c) s" and ne: "rest \<noteq> []"
  from ne have sp: "isSpace (hd rest)"
    unfolding r using hd_dropWhile [of "\<lambda>c. \<not> isSpace c" s] by blast
  from ne sp have "dropWhile isSpace rest = dropWhile isSpace (tl rest)"
    by (cases rest) auto
  then have "length (dropWhile isSpace rest) \<le> length (tl rest)"
    using length_dropWhile_le [of isSpace "tl rest"] by simp
  also have "\<dots> < length rest" using ne by (cases rest) auto
  also have "\<dots> \<le> length s" unfolding r by (simp add: length_dropWhile_le)
  finally show "(dropWhile isSpace rest, s) \<in> measure length" by simp
qed

declare split_ws.simps [simp del]

text \<open>
  Template literals print a number with \<open>Number::toString\<close>.  An integer of
  magnitude at most \<open>2\<^sup>5\<^sup>3\<close> is a double itself and is printed as its decimal
  numeral, with a minus sign for a negative one.  A larger integer of the request is
  first rounded to a double and is printed in exponent form from \<open>10\<^sup>2\<^sup>1\<close> on;
  \<open>big n\<close> is the text printed for it.
\<close>

fun digits :: "nat \<Rightarrow> jsstring" where
  "digits n = (if n < 10 then [of_nat (48 + n)] else digits (n div 10) @ [of_nat (48 + n mod 10)])"

declare digits.simps [simp del]

definition decimal :: "int \<Rightarrow> jsstring" where
  "decimal n = (if n < 0 then 0x2D # digits (nat (- n)) else digits (nat n))"

definition numToString :: "(int \<Rightarrow> jsstring) \<Rightarrow> int \<Rightarrow> jsstring" where
  "numToString big n = (if \<bar>n\<bar> \<le> 2 ^ 53 then decimal n else big n)"

section \<open>JSON values and HTTP responses\<close>

text \<open>
  What \<open>NextResponse.json\<close> serialises: an object is the list of its properties in
  the order the object literal writes them.  The numbers the handlers put into a body
  are integers.
\<close>

datatype json =
    JNull
  | JBool bool
  | JNum int
  | JStr jsstring
  | JArr "json list"
  | JObj "(jsstring \<times> json) list"

record response =
  status :: nat
  body :: json

text \<open>\<open>NextResponse.json(body)\<close> answers with status 200.\<close>

definition json_response :: "json \<Rightarrow> response" where
  "json_response b = \<lparr>status = 200, body = b\<rparr>"

text \<open>\<open>NextResponse.json({ error: msg }, { status: code })\<close>.\<close>

definition error_response :: "string \<Rightarrow> nat \<Rightarrow> response" where
  "error_response msg code = \<lparr>status = code, body = JObj [(js ''error'', JStr (js msg))]\<rparr>"

text \<open>The property names of an object, in order (\<open>Object.keys\<close>), and the
  read of one property.\<close>

fun keys :: "json \<Rightarrow> jsstring list" where
  "keys (JObj kvs) = map fst kvs"
| "keys _ = []"

fun field :: "json \<Rightarrow> jsstring \<Rightarrow> json option" where
  "field (JObj kvs) k = map_of kvs k"
| "field _ k = None"

section \<open>Files and text extraction\<close>

text \<open>
  A \<open>File\<close> as the code reads it: \<open>file.type\<close>, \<open>file.name\<close>, \<open>file.size\<close>, and
  the text its bytes decode to (\<open>await file.text()\<close> in the browser,
  \<open>buffer.toString('utf-8')\<close> on the server).
\<close>

record File =
  file_type :: jsstring
  file_name :: jsstring
  file_size :: nat
  file_text :: jsstring

definition docx_type :: jsstring where
  "docx_type = js ''application/vnd.openxmlformats-officedocument.wordprocessingml.document''"

definition plain_type :: jsstring where
  "plain_type = js ''text/plain''"

text \<open>The interface \<open>FileExtractionResult\<close> of \<open>lib/fileExtractor.ts\<close>
  (\<open>text'\<close> is its field \<open>text\<close>).\<close>

record FileExtractionResult =
  text' :: jsstring
  wordCount :: nat
  fileType :: jsstring
  fileName :: jsstring
  fileSize :: nat

text \<open>The errors the client-side extraction throws.\<close>

datatype extract_error =
    DocxNeedsServer    \<comment> \<open>'DOCX processing requires server-side extraction'\<close>
  | UnsupportedType    \<comment> \<open>'Unsupported file type'\<close>
  | NoTextExtracted    \<comment> \<open>'No text could be extracted from the file'\<close>

text \<open>\<open>extractTextFromFile\<close> of \<open>lib/fileExtractor.ts\<close>; its \<open>catch\<close> logs and
  rethrows.\<close>

definition extractTextFromFile :: "File \<Rightarrow> extract_error + FileExtractionResult" where
  "extractTextFromFile f =
     (if file_type f = docx_type then Inl DocxNeedsServer
      else if file_type f = plain_type then
        (let text = file_text f in
         if text = [] \<or> length (trim text) = 0 then Inl NoTextExtracted
         else
           (let text = (if length text > 100000 then take 100000 text @ js ''...'' else text);
                wc = length (filter (\<lambda>word. length word > 0) (split_ws text))
            in Inr \<lparr>text' = text, wordCount = wc, fileType = file_type f,
                     fileName = file_name f, fileSize = file_size f\<rparr>))
      else Inl UnsupportedType)"

text \<open>
  The inline extraction of \<open>handleFileSelect\<close> (\<open>DocumentSummarizer.tsx\<close>), entered
  when \<open>file.type === 'text/plain'\<close>: the words are counted before the text is cut.
\<close>

definition inlineExtract :: "File \<Rightarrow> extract_error + FileExtractionResult" where
  "inlineExtract f =
     (let text = file_text f in
      if text = [] \<or> length (trim text) = 0 then Inl NoTextExtracted
      else
        (let wc = length (filter (\<lambda>word. length word > 0) (split_ws text))
         in Inr \<lparr>text' = (if length text > 100000 then take 100000 text @ js ''...'' else text),
                  wordCount = wc, fileType = file_type f,
                  fileName = file_name f, fileSize = file_size f\<rparr>))"

section \<open>POST /api/upload\<close>

text \<open>
  The parsed multipart form: \<open>data.get('file')\<close> and \<open>data.get('extractedText')\<close>,
  \<open>None\<close> for a missing field.  The request is \<open>None\<close> when
  \<open>request.formData()\<close> rejects, which the outer \<open>catch\<close> answers.
  \<open>mammoth.extractRawText\<close> is the library's conversion, \<open>None\<close> when it throws.
\<close>

record upload_form =
  form_file :: "File option"
  form_extractedText :: "jsstring option"

definition upload_POST :: "(File \<Rightarrow> jsstring option) \<Rightarrow> upload_form option \<Rightarrow> response" where
  "upload_POST mammoth_extractRawText request =
     (case request of
        None \<Rightarrow> error_response ''File upload failed'' 500
      | Some data \<Rightarrow>
         (if form_extractedText data \<noteq> None \<and> form_extractedText data \<noteq> Some [] then
            (let extractedText = the (form_extractedText data) in
             json_response (JObj
               [(js ''text'', JStr extractedText),
                (js ''wordCount'',
                   JNum (int (length (filter (\<lambda>word. length word > 0) (split_ws extractedText))))),
                (js ''fileType'', JStr (js ''text/plain'')),
                (js ''fileName'', JStr (js ''document.txt'')),
                (js ''fileSize'', JNum 0)]))
          else
            (case form_file data of
               None \<Rightarrow> error_response ''No file uploaded'' 400
             | Some f \<Rightarrow>
                (if file_type f \<notin> set [docx_type, plain_type] then
                   error_response
                     ''Invalid file type. Please upload DOCX or TXT files for server-side processing.'' 400
                 else if file_size f > 10 * 1024 * 1024 then
                   error_response ''File too large'' 400
                 else
                   (case (if file_type f = docx_type then mammoth_extractRawText f
                          else if file_type f = plain_type then Some (file_text f)
                          else Some []) of
                      None \<Rightarrow> error_response ''Failed to extract text from file'' 500
                    | Some text \<Rightarrow>
                       (if text = [] \<or> length (trim text) = 0 then
                          error_response ''No text could be extracted from the file'' 400
                        else
                          (let text = (if length text > 100000
                                       then take 100000 text @ js ''...'' else text);
                               wc = length (filter (\<lambda>word. length word > 0) (split_ws text))
                           in json_response (JObj
                                [(js ''success'', JBool True),
                                 (js ''text'', JStr text),
                                 (js ''filename'', JStr (file_name f)),
                                 (js ''fileSize'', JNum (int (file_size f))),
                                 (js ''wordCount'', JNum (int wc))]))))))))"

section \<open>The upload component\<close>

text \<open>
  The state of \<open>DocumentSummarizer\<close> that \<open>handleFileSelect\<close> writes.  \<open>fetch\<close>
  is the request to \<open>/api/upload\<close> together with \<open>response.json()\<close>: \<open>Inl msg\<close>
  when either rejects with an \<open>Error\<close> of that message.  The form sent never carries
  \<open>extractedText\<close>, because \<open>extractionResult\<close> is still undefined whenever the
  server is reached.  \<open>setExtractedText(result.text)\<close> stores the property as it is,
  so the state holds a JSON value, \<open>None\<close> for \<open>undefined\<close>.  The message of
  \<open>new Error(result.error || 'Failed to process file')\<close> is the property itself
  when it is a non-empty string, \<open>toStr v\<close> (what \<open>String(v)\<close> gives) for another
  truthy value \<open>v\<close>, and the default for a falsy or missing one.
\<close>

fun truthy :: "json \<Rightarrow> bool" where
  "truthy JNull \<longleftrightarrow> False"
| "truthy (JBool b) \<longleftrightarrow> b"
| "truthy (JNum n) \<longleftrightarrow> n \<noteq> 0"
| "truthy (JStr s) \<longleftrightarrow> s \<noteq> []"
| "truthy (JArr xs) \<longleftrightarrow> True"
| "truthy (JObj kvs) \<longleftrightarrow> True"

record summarizer_state =
  isProcessing :: bool
  extractedText :: "json option"
  summaryResult :: "json option"
  error :: jsstring
  currentFile :: "File option"

definition handleFileSelect ::
  "(json \<Rightarrow> jsstring) \<Rightarrow> (upload_form \<Rightarrow> jsstring + response) \<Rightarrow> File \<Rightarrow>
     summarizer_state \<Rightarrow> summarizer_state" where
  "handleFileSelect toStr fetch f st =
     (let st1 = st\<lparr>isProcessing := True, error := [], currentFile := Some f,
                    summaryResult := None\<rparr>;
          server =
            (case fetch \<lparr>form_file = Some f, form_extractedText = None\<rparr> of
               Inl msg \<Rightarrow> st1\<lparr>error := msg, isProcessing := False\<rparr>
             | Inr resp \<Rightarrow>
                (if \<not> (200 \<le> status resp \<and> status resp \<le> 299) then
                   st1\<lparr>error :=
                          (case field (body resp) (js ''error'') of
                             None \<Rightarrow> js ''Failed to process file''
                           | Some v \<Rightarrow>
                              (if truthy v then (case v of JStr e \<Rightarrow> e | _ \<Rightarrow> toStr v)
                               else js ''Failed to process file'')),
                       isProcessing := False\<rparr>
                 else
                   st1\<lparr>extractedText := field (body resp) (js ''text''),
                       isProcessing := False\<rparr>))
      in if file_type f = plain_type then
           (case inlineExtract f of
              Inr extractionResult \<Rightarrow>
                st1\<lparr>extractedText := Some (JStr (text' extractionResult)),
                    isProcessing := False\<rparr>
            | Inl clientError \<Rightarrow> server)
         else server)"

section \<open>POST /api/summarize\<close>

text \<open>
  The JSON body as the client sends it: \<open>text\<close>, \<open>summaryType\<close> and \<open>tone\<close> are
  strings and \<open>customLength\<close> is the integer that the body writes; a missing or
  null field is \<open>None\<close>.
\<close>

record summarize_request =
  req_text :: "jsstring option"
  req_summaryType :: "jsstring option"
  req_customLength :: "int option"
  req_tone :: "jsstring option"

text \<open>The own properties of the object literal \<open>toneInstructions\<close>.\<close>

definition toneInstructions :: "jsstring \<Rightarrow> jsstring option" where
  "toneInstructions t =
     (if t = js ''professional'' then Some (js ''Use a professional and formal tone.'')
      else if t = js ''casual'' then Some (js ''Use a casual and conversational tone.'')
      else if t = js ''academic'' then
        Some (js ''Use an academic and scholarly tone with precise language.'')
      else None)"

text \<open>
  The prompt of the summarize route.  \<open>basePrompt\<close> is the \<open>switch\<close> on the
  summary type (lines 245 to 258), with \<open>customLength || 200\<close> taking 200 for a
  missing length and for the falsy number 0, and \<open>big\<close> the text printed for a
  length beyond \<open>2\<^sup>5\<^sup>3\<close>.  The two line feeds before the text are the code units
  \<open>0x0A\<close>.
\<close>

definition basePrompt ::
  "(int \<Rightarrow> jsstring) \<Rightarrow> jsstring option \<Rightarrow> int option \<Rightarrow> jsstring \<Rightarrow> jsstring" where
  "basePrompt big summaryType customLength text =
     (if summaryType = Some (js ''short'') then
        js ''Please provide a concise summary of the following text in 1-2 paragraphs. Focus on the main points and key information:''
          @ [0x0A, 0x0A] @ text
      else if summaryType = Some (js ''bullet'') then
        js ''Please summarize the following text as bullet points. Extract the key information and present it in a clear, organized list:''
          @ [0x0A, 0x0A] @ text
      else if summaryType = Some (js ''custom'') then
        (let wc = (case customLength of None \<Rightarrow> 200 | Some n \<Rightarrow> if n = 0 then 200 else n)
         in js ''Please summarize the following text in approximately '' @ numToString big wc
              @ js '' words. Maintain the essential information while being concise:''
              @ [0x0A, 0x0A] @ text)
      else
        js ''Please provide a comprehensive summary of the following text, highlighting the main points and key information:''
          @ [0x0A, 0x0A] @ text)"

text \<open>
  The tone adjustment (lines 260 to 268).  \<open>other t\<close> is the text that
  \<open>${toneInstructions[tone]}\<close> prints for a tone that is not one of the three keys
  (\<open>undefined\<close>, or a member inherited from \<open>Object.prototype\<close>).
\<close>

definition buildPrompt ::
  "(int \<Rightarrow> jsstring) \<Rightarrow> (jsstring \<Rightarrow> jsstring) \<Rightarrow> jsstring option \<Rightarrow> int option \<Rightarrow>
     jsstring option \<Rightarrow> jsstring \<Rightarrow> jsstring" where
  "buildPrompt big other summaryType customLength tone text =
     (let prompt = basePrompt big summaryType customLength text
      in case tone of
           None \<Rightarrow> prompt
         | Some t \<Rightarrow>
            (if t \<noteq> [] \<and> t \<noteq> js ''neutral'' then
               (case toneInstructions t of Some instruction \<Rightarrow> instruction | None \<Rightarrow> other t)
                 @ js '' '' @ prompt
             else prompt))"

definition highlightPrompt :: "jsstring \<Rightarrow> jsstring" where
  "highlightPrompt text =
     js ''From the following text, extract important keywords, names of people/organizations, and dates. Present them as a JSON object with three arrays: ''
       @ [0x22] @ js ''keywords'' @ [0x22] @ js '', '' @ [0x22] @ js ''names'' @ [0x22]
       @ js '', and '' @ [0x22] @ js ''dates'' @ [0x22] @ js '':'' @ [0x0A, 0x0A] @ text"

text \<open>
  One call of the hosted model: \<open>generateContent\<close> may reject, and \<open>response.text()\<close>
  may throw afterwards.
\<close>

datatype reply = GenerateThrows | TextThrows | Reply jsstring

text \<open>
  What the route reads from outside: the environment variable, the model,
  \<open>JSON.parse\<close> (\<open>None\<close> for a \<open>SyntaxError\<close>), and the two texts that the
  template literals print outside the cases written out here (a tone that is not a
  key of \<open>toneInstructions\<close>, a custom length beyond \<open>2\<^sup>5\<^sup>3\<close>).
\<close>

record world =
  GOOGLE_AI_API_KEY :: "jsstring option"
  generateContent :: "jsstring \<Rightarrow> reply"
  JSON_parse :: "jsstring \<Rightarrow> json option"
  inheritedTone :: "jsstring \<Rightarrow> jsstring"
  bigNumber :: "int \<Rightarrow> jsstring"

text \<open>
  \<open>highlightText.match(/\{[\s\S]*\}/)\<close>: the match starts at the first \<open>{\<close> and,
  the star being greedy, ends at the last \<open>}\<close> behind it; there is none when no
  \<open>}\<close> follows the first \<open>{\<close>.
\<close>

definition jsonMatch :: "jsstring \<Rightarrow> jsstring option" where
  "jsonMatch s =
     (let t = dropWhile (\<lambda>c. c \<noteq> 0x7B) s in
      if t = [] then None
      else
        (let m = rev (dropWhile (\<lambda>c. c \<noteq> 0x7D) (rev (tl t))) in
         if m = [] then None else Some (0x7B # m)))"

definition defaultHighlights :: json where
  "defaultHighlights =
     JObj [(js ''keywords'', JArr []), (js ''names'', JArr []), (js ''dates'', JArr [])]"

text \<open>The \<open>try\<close> block around the highlight response (lines 281 to 290).\<close>

definition extractHighlights :: "(jsstring \<Rightarrow> json option) \<Rightarrow> reply \<Rightarrow> json" where
  "extractHighlights parse highlightResponse =
     (case highlightResponse of
        Reply highlightText \<Rightarrow>
          (case jsonMatch highlightText of
             None \<Rightarrow> defaultHighlights
           | Some m \<Rightarrow> (case parse m of None \<Rightarrow> defaultHighlights | Some v \<Rightarrow> v))
      | _ \<Rightarrow> defaultHighlights)"

text \<open>
  JavaScript numbers are IEEE 754 doubles: the result of \<open>/\<close>, \<open>-\<close> and \<open>*\<close> is
  the exact result rounded to the nearest number with a 53-bit significand, a tie
  going to the even significand.  \<open>rne\<close> is that rounding to an integer,
  \<open>ilog2 x\<close> the exponent \<open>e\<close> with \<open>2\<^sup>e \<le> x < 2\<^sup>e\<^sup>+\<^sup>1\<close> of a positive \<open>x\<close>, and
  \<open>fl\<close> the rounding of a rational to a double.  Word counts are lengths of
  arrays, below \<open>2\<^sup>3\<^sup>2\<close>, so that every value the ratio goes through is zero or a
  normal double and the exponent range plays no part.
\<close>

definition rne :: "rat \<Rightarrow> int" where
  "rne x = (let f = \<lfloor>x\<rfloor>; d = x - of_int f in
            if d < 1 / 2 then f else if 1 / 2 < d then f + 1
            else if even f then f else f + 1)"

definition ilog2 :: "rat \<Rightarrow> int" where
  "ilog2 x = (if 1 \<le> x then int (floorlog 2 (nat \<lfloor>x\<rfloor>)) - 1
              else - int (floorlog 2 (nat (\<lceil>1 / x\<rceil> - 1))))"

definition fl :: "rat \<Rightarrow> rat" where
  "fl x = (if x = 0 then 0
           else (let u = 2 powi (ilog2 \<bar>x\<bar> - 52)
                 in sgn x * (of_int (rne (\<bar>x\<bar> / u)) * u)))"

text \<open>
  \<open>Math.round\<close> returns the nearest integer, a tie going up; the \<open>-0\<close> it returns
  for a value in \<open>[-0.5, 0)\<close> is serialised as \<open>0\<close>.
\<close>

definition Math_round :: "rat \<Rightarrow> int" where
  "Math_round x = \<lfloor>x + 1 / 2\<rfloor>"

definition summarize_failed :: response where
  "summarize_failed =
     error_response ''Failed to generate summary. Please check your API key and try again.'' 500"

definition summarize_POST :: "world \<Rightarrow> summarize_request option \<Rightarrow> response" where
  "summarize_POST w request =
     (case request of
        None \<Rightarrow> summarize_failed
      | Some req \<Rightarrow>
         (if req_text req = None \<or> req_text req = Some [] \<or> length (trim (the (req_text req))) = 0
          then error_response ''No text provided for summarization'' 400
          else if GOOGLE_AI_API_KEY w = None \<or> GOOGLE_AI_API_KEY w = Some []
          then error_response ''Gemini API key not configured'' 500
          else
            (let text = the (req_text req);
                 prompt = buildPrompt (bigNumber w) (inheritedTone w) (req_summaryType req)
                            (req_customLength req) (req_tone req) text
             in case generateContent w prompt of
                  Reply summary \<Rightarrow>
                    (case generateContent w (highlightPrompt text) of
                       GenerateThrows \<Rightarrow> summarize_failed
                     | highlightResponse \<Rightarrow>
                        (let highlights = extractHighlights (JSON_parse w) highlightResponse
                         in json_response (JObj
                              [(js ''success'', JBool True),
                               (js ''summary'', JStr summary),
                               (js ''highlights'', highlights),
                               (js ''originalWordCount'', JNum (int (length (split_ws text)))),
                               (js ''summaryWordCount'', JNum (int (length (split_ws summary)))),
                               (js ''compressionRatio'',
                                  JNum (Math_round
                                    (fl (fl (1 - fl (of_nat (length (split_ws summary))
                                                       / of_nat (length (split_ws text))))
                                         * 100))))])))
                | _ \<Rightarrow> summarize_failed)))"

section \<open>The history dashboard\<close>

text \<open>
  A \<open>HistoryItem\<close> with the fields the list reads, and the state \<open>deleteItem\<close>
  touches: the persisted collection, the cached \<open>historyItems\<close> and the
  \<open>selectedItem\<close>.  \<open>deleteDoc\<close> is Firestore's delete on the collection,
  \<open>None\<close> when it rejects; the \<open>catch\<close> then only logs.
\<close>

record HistoryItem =
  item_id :: jsstring
  item_fileName :: jsstring
  item_summary :: jsstring

record 'db history_state =
  store :: 'db
  historyItems :: "HistoryItem list"
  selectedItem :: "HistoryItem option"

definition deleteItem ::
  "(jsstring \<Rightarrow> 'db \<Rightarrow> 'db option) \<Rightarrow> jsstring \<Rightarrow> 'db history_state \<Rightarrow> 'db history_state" where
  "deleteItem deleteDoc itemId st =
     (case deleteDoc itemId (store st) of
        None \<Rightarrow> st
      | Some db \<Rightarrow>
          st\<lparr>store := db,
             historyItems := filter (\<lambda>item. item_id item \<noteq> itemId) (historyItems st),
             selectedItem :=
               (if map_option item_id (selectedItem st) = Some itemId then None
                else selectedItem st)\<rparr>)"


section \<open>What the specification counts\<close>

text \<open>
  The number of non-empty whitespace-delimited tokens of a text: the positions where
  a token begins, that is, a character that is not whitespace and stands first or
  behind a whitespace character.
\<close>

definition tokenCount :: "jsstring \<Rightarrow> nat" where
  "tokenCount s =
     length (filter (\<lambda>i. \<not> isSpace (s ! i) \<and> (i = 0 \<or> isSpace (s ! (i - 1)))) [0..<length s])"

text \<open>A text contains a brace-delimited substring when some \<open>{\<close> has a \<open>}\<close>
  behind it.\<close>

fun braceDelimited :: "jsstring \<Rightarrow> bool" where
  "braceDelimited [] \<longleftrightarrow> False"
| "braceDelimited (c # cs) \<longleftrightarrow> (c = 0x7B \<and> 0x7D \<in> set cs) \<or> braceDelimited cs"

text \<open>\<open>s.includes(p)\<close>: the phrase \<open>p\<close> occurs in \<open>s\<close>.\<close>

fun includes_js :: "jsstring \<Rightarrow> jsstring \<Rightarrow> bool" where
  "includes_js [] p \<longleftrightarrow> p = []"
| "includes_js (c # cs) p \<longleftrightarrow> take (length p) (c # cs) = p \<or> includes_js cs p"

text \<open>A scanner that counts the tokens of a text; \<open>inTok\<close> says that the
  character before was part of a token.\<close>

fun tokens_from :: "bool \<Rightarrow> jsstring \<Rightarrow> nat" where
  "tokens_from inTok [] = 0"
| "tokens_from inTok (c # cs) =
     (if isSpace c then tokens_from False cs
      else (if inTok then 0 else 1) + tokens_from True cs)"

section \<open>Properties of the string operations\<close>

lemma trim_empty_iff: "trim s = [] \<longleftrightarrow> (\<forall>c \<in> set s. isSpace c)"
proof -
  have "set s = set (takeWhile isSpace s) \<union> set (dropWhile isSpace s)"
    by (metis set_append takeWhile_dropWhile_id)
  then have "(\<forall>c \<in> set (dropWhile isSpace s). isSpace c) \<longleftrightarrow> (\<forall>c \<in> set s. isSpace c)"
    by (auto dest: set_takeWhileD)
  then show ?thesis
    by (simp add: trim_def dropWhile_eq_Nil_conv)
qed

lemma split_ws_nonempty: "split_ws s \<noteq> []"
  by (subst split_ws.simps) (simp add: Let_def)

lemma length_split_ws_pos: "0 < length (split_ws s)"
  using split_ws_nonempty [of s] by simp

lemma tokens_from_run:
  "\<forall>c \<in> set xs. \<not> isSpace c \<Longrightarrow>
   tokens_from b (xs @ ys) =
     (if xs = [] then tokens_from b ys else (if b then 0 else 1) + tokens_from True ys)"
  by (induction xs arbitrary: b) auto

lemma tokens_from_skip: "tokens_from False (dropWhile isSpace ys) = tokens_from False ys"
  by (induction ys) auto

lemma tokens_from_space_first:
  "ys \<noteq> [] \<Longrightarrow> isSpace (hd ys) \<Longrightarrow> tokens_from b ys = tokens_from False (dropWhile isSpace ys)"
  by (cases ys) (auto simp: tokens_from_skip)

lemma filtered_split_tokens:
  "length (filter (\<lambda>word. length word > 0) (split_ws s)) = tokens_from False s"
proof (induction s rule: split_ws.induct)
  case (1 s)
  define tok where "tok = takeWhile (\<lambda>c. \<not> isSpace c) s"
  define rest where "rest = dropWhile (\<lambda>c. \<not> isSpace c) s"
  have s: "s = tok @ rest" by (simp add: tok_def rest_def)
  have tok: "\<forall>c \<in> set tok. \<not> isSpace c"
    unfolding tok_def by (auto dest: set_takeWhileD)
  have run: "tokens_from False s =
      (if tok = [] then tokens_from False rest else 1 + tokens_from True rest)"
    unfolding s using tokens_from_run [OF tok, of False rest] by simp
  have unfold: "split_ws s =
      (if rest = [] then [tok] else tok # split_ws (dropWhile isSpace rest))"
    unfolding tok_def rest_def by (subst split_ws.simps) (simp only: Let_def)
  show ?case
  proof (cases "rest = []")
    case True
    then have "split_ws s = [tok]"
      using unfold by simp
    then show ?thesis using run True by simp
  next
    case False
    then have sp: "isSpace (hd rest)"
      unfolding rest_def using hd_dropWhile [of "\<lambda>c. \<not> isSpace c" s] by blast
    have split: "split_ws s = tok # split_ws (dropWhile isSpace rest)"
      using unfold False by simp
    have ih: "length (filter (\<lambda>word. length word > 0) (split_ws (dropWhile isSpace rest))) =
        tokens_from False (dropWhile isSpace rest)"
      using "1.IH" [OF tok_def rest_def False] .
    have r: "tokens_from b rest = tokens_from False (dropWhile isSpace rest)" for b
      using tokens_from_space_first [OF False sp] .
    have "length (filter (\<lambda>word. length word > 0) (split_ws s)) =
        (if tok = [] then 0 else 1) + tokens_from False (dropWhile isSpace rest)"
      unfolding split using ih by simp
    also have "\<dots> = tokens_from False s"
      unfolding run r by simp
    finally show ?thesis .
  qed
qed

lemma tokens_from_index:
  "tokens_from b s =
     length (filter (\<lambda>i. \<not> isSpace (s ! i) \<and> (if i = 0 then \<not> b else isSpace (s ! (i - 1))))
       [0..<length s])"
proof (induction s arbitrary: b)
  case Nil
  then show ?case by simp
next
  case (Cons c cs)
  have up: "[0..<length (c # cs)] = 0 # map Suc [0..<length cs]"
    by (simp add: upt_conv_Cons map_Suc_upt del: upt_Suc)
  have shift: "(\<lambda>i. \<not> isSpace ((c # cs) ! i) \<and>
             (if i = 0 then \<not> b else isSpace ((c # cs) ! (i - 1)))) \<circ> Suc =
        (\<lambda>i. \<not> isSpace (cs ! i) \<and> (if i = 0 then \<not> (\<not> isSpace c) else isSpace (cs ! (i - 1))))"
    by (rule ext) (auto simp: nth_Cons split: nat.splits)
  show ?case
    unfolding up
    by (simp add: filter_map shift Cons.IH [of "\<not> isSpace c"] Cons.IH [of False] Cons.IH [of True]
        del: upt_Suc)
qed

lemma tokenCount_scan: "tokenCount s = tokens_from False s"
  unfolding tokenCount_def tokens_from_index
  by (rule arg_cong [where f = length], rule filter_cong) auto

lemma wordCount_tokenCount:
  "length (filter (\<lambda>word. length word > 0) (split_ws s)) = tokenCount s"
  unfolding filtered_split_tokens tokenCount_scan ..

lemma unat_of_char: "unat (of_char c :: 16 word) = of_char c"
proof -
  have "(of_char c :: nat) < 256" by (rule nat_of_char_less_256)
  then have "(of_char c :: nat) < 65536" by (rule less_trans) simp
  then have lt: "(of_char c :: nat) < 2 ^ LENGTH(16)" by simp
  have eq: "(word_of_nat (of_char c) :: 16 word) = of_char c" by (rule of_nat_of_char)
  show ?thesis by (rule of_nat_inverse [OF eq lt])
qed

lemma of_char_word_eq_iff: "(of_char c :: 16 word) = of_char d \<longleftrightarrow> c = d"
proof
  assume "(of_char c :: 16 word) = of_char d"
  then have "unat (of_char c :: 16 word) = unat (of_char d :: 16 word)" by simp
  then show "c = d" by (simp only: unat_of_char of_char_eq_iff)
qed simp

lemma js_eq_iff: "js a = js b \<longleftrightarrow> a = b"
  unfolding js_def
  by (rule inj_map_eq_map) (simp add: inj_on_def of_char_word_eq_iff)

lemma length_js: "length (js s) = length s"
  by (simp add: js_def)

lemma plain_not_docx: "plain_type \<noteq> docx_type"
  by (simp add: plain_type_def docx_type_def js_eq_iff)

section \<open>Text extraction\<close>

lemma trim_nonempty_text: "trim t \<noteq> [] \<Longrightarrow> t \<noteq> []"
  by (auto simp: trim_def)

lemma extractTextFromFile_plain:
  assumes "file_type f = plain_type" and "trim (file_text f) \<noteq> []"
  shows "extractTextFromFile f =
     Inr \<lparr>text' = (if length (file_text f) > 100000
                    then take 100000 (file_text f) @ js ''...'' else file_text f),
          wordCount = tokenCount (if length (file_text f) > 100000
                    then take 100000 (file_text f) @ js ''...'' else file_text f),
          fileType = file_type f, fileName = file_name f, fileSize = file_size f\<rparr>"
  using assms trim_nonempty_text [OF assms(2)] plain_not_docx
  by (simp add: extractTextFromFile_def Let_def wordCount_tokenCount del: length_greater_0_conv)

lemma inlineExtract_plain:
  assumes "trim (file_text f) \<noteq> []"
  shows "inlineExtract f =
     Inr \<lparr>text' = (if length (file_text f) > 100000
                    then take 100000 (file_text f) @ js ''...'' else file_text f),
          wordCount = tokenCount (file_text f),
          fileType = file_type f, fileName = file_name f, fileSize = file_size f\<rparr>"
  using assms trim_nonempty_text [OF assms]
  by (simp add: inlineExtract_def Let_def wordCount_tokenCount del: length_greater_0_conv)

lemma handleFileSelect_plain:
  assumes "file_type f = plain_type" and "trim (file_text f) \<noteq> []"
  shows "extractedText (handleFileSelect toStr fetch f st) =
     Some (JStr (if length (file_text f) > 100000
                 then take 100000 (file_text f) @ js ''...'' else file_text f))"
  using assms by (simp add: handleFileSelect_def Let_def inlineExtract_plain)

lemma upload_POST_plain:
  assumes "file_type f = plain_type" and "trim (file_text f) \<noteq> []"
    and "file_size f \<le> 10 * 1024 * 1024" and "e = None \<or> e = Some []"
  shows "upload_POST m (Some \<lparr>form_file = Some f, form_extractedText = e\<rparr>) =
     json_response (JObj
       [(js ''success'', JBool True),
        (js ''text'', JStr (if length (file_text f) > 100000
                    then take 100000 (file_text f) @ js ''...'' else file_text f)),
        (js ''filename'', JStr (file_name f)),
        (js ''fileSize'', JNum (int (file_size f))),
        (js ''wordCount'', JNum (int (tokenCount (if length (file_text f) > 100000
                    then take 100000 (file_text f) @ js ''...'' else file_text f))))])"
  using assms trim_nonempty_text [OF assms(2)] plain_not_docx
  by (auto simp add: upload_POST_def Let_def wordCount_tokenCount simp del: length_greater_0_conv)

text \<open>A blank text is rejected on every path.\<close>

lemma blank_text_rejected:
  assumes "file_type f = plain_type" and "trim (file_text f) = []"
  shows "extractTextFromFile f = Inl NoTextExtracted"
    and "inlineExtract f = Inl NoTextExtracted"
    and "e = None \<or> e = Some [] \<Longrightarrow> file_size f \<le> 10 * 1024 * 1024 \<Longrightarrow>
         upload_POST m (Some \<lparr>form_file = Some f, form_extractedText = e\<rparr>) =
           error_response ''No text could be extracted from the file'' 400"
  using assms plain_not_docx
  by (auto simp: extractTextFromFile_def inlineExtract_def upload_POST_def)

text \<open>
  Claim C1.  A plain-text file whose text is not blank is extracted the same way on
  every path: by \<open>extractTextFromFile\<close>, by the inline extraction of
  \<open>handleFileSelect\<close> (which stores the text in \<open>extractedText\<close>), and by the
  upload route when the form carries no pre-extracted text and the file is within
  the 10MB limit.  A text of at most 100,000 characters is returned verbatim, with
  nothing appended, and its word count is the number of non-empty
  whitespace-delimited tokens; a longer text is returned as its first 100,000
  characters followed by \<open>...\<close>.  (A blank text is rejected on every path.)
\<close>

theorem plain_text_extraction:
  assumes "file_type f = plain_type" and "trim (file_text f) \<noteq> []"
  shows
    "(length (file_text f) \<le> 100000 \<longrightarrow>
        extractTextFromFile f =
          Inr \<lparr>text' = file_text f, wordCount = tokenCount (file_text f),
               fileType = file_type f, fileName = file_name f, fileSize = file_size f\<rparr> \<and>
        inlineExtract f =
          Inr \<lparr>text' = file_text f, wordCount = tokenCount (file_text f),
               fileType = file_type f, fileName = file_name f, fileSize = file_size f\<rparr> \<and>
        extractedText (handleFileSelect toStr fetch f st) = Some (JStr (file_text f)) \<and>
        (file_size f \<le> 10 * 1024 * 1024 \<and> (e = None \<or> e = Some []) \<longrightarrow>
           status (upload_POST m (Some \<lparr>form_file = Some f, form_extractedText = e\<rparr>)) = 200 \<and>
           field (body (upload_POST m (Some \<lparr>form_file = Some f, form_extractedText = e\<rparr>)))
             (js ''text'') = Some (JStr (file_text f)) \<and>
           field (body (upload_POST m (Some \<lparr>form_file = Some f, form_extractedText = e\<rparr>)))
             (js ''wordCount'') = Some (JNum (int (tokenCount (file_text f)))))) \<and>
     (100000 < length (file_text f) \<longrightarrow>
        (\<exists>r. extractTextFromFile f = Inr r \<and>
             text' r = take 100000 (file_text f) @ js ''...'') \<and>
        (\<exists>r. inlineExtract f = Inr r \<and>
             text' r = take 100000 (file_text f) @ js ''...'') \<and>
        extractedText (handleFileSelect toStr fetch f st) =
          Some (JStr (take 100000 (file_text f) @ js ''...'')) \<and>
        (file_size f \<le> 10 * 1024 * 1024 \<and> (e = None \<or> e = Some []) \<longrightarrow>
           status (upload_POST m (Some \<lparr>form_file = Some f, form_extractedText = e\<rparr>)) = 200 \<and>
           field (body (upload_POST m (Some \<lparr>form_file = Some f, form_extractedText = e\<rparr>)))
             (js ''text'') = Some (JStr (take 100000 (file_text f) @ js ''...''))))"
proof (intro conjI impI)
  assume le: "length (file_text f) \<le> 100000"
  show "extractTextFromFile f =
          Inr \<lparr>text' = file_text f, wordCount = tokenCount (file_text f),
               fileType = file_type f, fileName = file_name f, fileSize = file_size f\<rparr>"
    using le by (simp add: extractTextFromFile_plain [OF assms])
  show "inlineExtract f =
          Inr \<lparr>text' = file_text f, wordCount = tokenCount (file_text f),
               fileType = file_type f, fileName = file_name f, fileSize = file_size f\<rparr>"
    using le by (simp add: inlineExtract_plain [OF assms(2)])
  show "extractedText (handleFileSelect toStr fetch f st) = Some (JStr (file_text f))"
    using le by (simp add: handleFileSelect_plain [OF assms])
  {
    assume srv: "file_size f \<le> 10 * 1024 * 1024 \<and> (e = None \<or> e = Some [])"
    note up = upload_POST_plain [OF assms conjunct1 [OF srv] conjunct2 [OF srv], of m]
    show "status (upload_POST m (Some \<lparr>form_file = Some f, form_extractedText = e\<rparr>)) = 200"
      unfolding up by (simp add: json_response_def)
    show "field (body (upload_POST m (Some \<lparr>form_file = Some f, form_extractedText = e\<rparr>)))
             (js ''text'') = Some (JStr (file_text f))"
      unfolding up using le by (simp add: json_response_def js_eq_iff)
    show "field (body (upload_POST m (Some \<lparr>form_file = Some f, form_extractedText = e\<rparr>)))
             (js ''wordCount'') = Some (JNum (int (tokenCount (file_text f))))"
      unfolding up using le by (simp add: json_response_def js_eq_iff)
  }
next
  assume gt: "100000 < length (file_text f)"
  show "\<exists>r. extractTextFromFile f = Inr r \<and> text' r = take 100000 (file_text f) @ js ''...''"
    using gt by (simp add: extractTextFromFile_plain [OF assms])
  show "\<exists>r. inlineExtract f = Inr r \<and> text' r = take 100000 (file_text f) @ js ''...''"
    using gt by (simp add: inlineExtract_plain [OF assms(2)])
  show "extractedText (handleFileSelect toStr fetch f st) =
      Some (JStr (take 100000 (file_text f) @ js ''...''))"
    using gt by (simp add: handleFileSelect_plain [OF assms])
  {
    assume srv: "file_size f \<le> 10 * 1024 * 1024 \<and> (e = None \<or> e = Some [])"
    note up = upload_POST_plain [OF assms conjunct1 [OF srv] conjunct2 [OF srv], of m]
    show "status (upload_POST m (Some \<lparr>form_file = Some f, form_extractedText = e\<rparr>)) = 200"
      unfolding up by (simp add: json_response_def)
    show "field (body (upload_POST m (Some \<lparr>form_file = Some f, form_extractedText = e\<rparr>)))
             (js ''text'') = Some (JStr (take 100000 (file_text f) @ js ''...''))"
      unfolding up using gt by (simp add: json_response_def js_eq_iff)
  }
qed

theorem plain_text_extraction_witness:
  "extractTextFromFile
      \<lparr>file_type = plain_type, file_name = js ''notes.txt'', file_size = 11,
       file_text = js ''hello world''\<rparr> =
     Inr \<lparr>text' = js ''hello world'', wordCount = 2, fileType = plain_type,
          fileName = js ''notes.txt'', fileSize = 11\<rparr> \<and>
   field (body (upload_POST (\<lambda>f. None)
      (Some \<lparr>form_file = Some \<lparr>file_type = plain_type, file_name = js ''notes.txt'',
                 file_size = 11, file_text = js ''hello world''\<rparr>,
             form_extractedText = None\<rparr>))) (js ''wordCount'') = Some (JNum 2) \<and>
   (\<exists>r. extractTextFromFile
      \<lparr>file_type = plain_type, file_name = js ''long.txt'', file_size = 100001,
       file_text = replicate 100001 0x61\<rparr> = Inr r \<and>
      text' r = replicate 100000 0x61 @ js ''...'') \<and>
   field (body (upload_POST (\<lambda>f. None)
      (Some \<lparr>form_file = Some \<lparr>file_type = plain_type, file_name = js ''long.txt'',
                 file_size = 100001, file_text = replicate 100001 0x61\<rparr>,
             form_extractedText = None\<rparr>))) (js ''text'') =
     Some (JStr (replicate 100000 0x61 @ js ''...''))"
proof -
  let ?f = "\<lparr>file_type = plain_type, file_name = js ''notes.txt'', file_size = 11,
       file_text = js ''hello world''\<rparr>"
  let ?g = "\<lparr>file_type = plain_type, file_name = js ''long.txt'', file_size = 100001,
       file_text = replicate 100001 (0x61 :: jschar)\<rparr>"
  have f1: "file_type ?f = plain_type" and g1: "file_type ?g = plain_type" by simp_all
  have f2: "trim (file_text ?f) \<noteq> []"
    by (simp add: trim_empty_iff js_def isSpace_def)
  have g2: "trim (file_text ?g) \<noteq> []"
    by (simp add: trim_empty_iff isSpace_def)
  have f3: "length (file_text ?f) \<le> 100000" by (simp add: length_js)
  have g3: "100000 < length (file_text ?g)" by simp
  have f4: "tokenCount (js ''hello world'') = 2" by code_simp
  have f5: "file_size ?f \<le> 10 * 1024 * 1024" and g5: "file_size ?g \<le> 10 * 1024 * 1024"
    by simp_all
  show ?thesis
    using plain_text_extraction [OF f1 f2, where e = None and m = "\<lambda>f. None"]
      plain_text_extraction [OF g1 g2, where e = None and m = "\<lambda>f. None"]
      f3 g3 f4 f5 g5
    by simp
qed

text \<open>
  Claim C10.  On a plain-text file whose text is not blank and has at most 100,000
  characters, \<open>extractTextFromFile\<close> and the inline extraction of
  \<open>handleFileSelect\<close> return the same result: the text itself, its token count, and
  the type, name and size of the file.
\<close>

theorem client_extraction_paths_agree:
  assumes "file_type f = plain_type" and "trim (file_text f) \<noteq> []"
    and "length (file_text f) \<le> 100000"
  shows "extractTextFromFile f = inlineExtract f \<and>
     inlineExtract f =
       Inr \<lparr>text' = file_text f, wordCount = tokenCount (file_text f),
            fileType = file_type f, fileName = file_name f, fileSize = file_size f\<rparr>"
  using assms(3)
  by (simp add: extractTextFromFile_plain [OF assms(1,2)] inlineExtract_plain [OF assms(2)])

theorem client_extraction_paths_agree_witness:
  "extractTextFromFile
      \<lparr>file_type = plain_type, file_name = js ''memo.txt'', file_size = 14,
       file_text = js '' one two three''\<rparr> =
   inlineExtract
      \<lparr>file_type = plain_type, file_name = js ''memo.txt'', file_size = 14,
       file_text = js '' one two three''\<rparr> \<and>
   inlineExtract
      \<lparr>file_type = plain_type, file_name = js ''memo.txt'', file_size = 14,
       file_text = js '' one two three''\<rparr> =
     Inr \<lparr>text' = js '' one two three'', wordCount = 3, fileType = plain_type,
          fileName = js ''memo.txt'', fileSize = 14\<rparr>"
proof -
  let ?f = "\<lparr>file_type = plain_type, file_name = js ''memo.txt'', file_size = 14,
       file_text = js '' one two three''\<rparr>"
  have h1: "file_type ?f = plain_type" by simp
  have h2: "trim (file_text ?f) \<noteq> []"
    by (simp add: trim_empty_iff js_def isSpace_def)
  have h3: "length (file_text ?f) \<le> 100000" by (simp add: length_js)
  have h4: "tokenCount (js '' one two three'') = 3" by code_simp
  show ?thesis
    using client_extraction_paths_agree [OF h1 h2 h3] h4 by simp
qed

section \<open>The upload route\<close>

text \<open>
  Claim C8.  When the form carries a non-empty \<open>extractedText\<close>, the upload route
  answers 200 with that text unchanged, the number of its non-empty
  whitespace-delimited tokens, the type \<open>text/plain\<close>, the name \<open>document.txt\<close>
  and the size 0, whatever the form's file is (missing, of any type, of any size):
  the file is never looked at.
\<close>

theorem upload_preextracted_short_circuit:
  assumes "form_extractedText d = Some t" and "t \<noteq> []"
  shows "upload_POST m (Some d) =
     \<lparr>status = 200,
      body = JObj [(js ''text'', JStr t),
                   (js ''wordCount'', JNum (int (tokenCount t))),
                   (js ''fileType'', JStr (js ''text/plain'')),
                   (js ''fileName'', JStr (js ''document.txt'')),
                   (js ''fileSize'', JNum 0)]\<rparr>"
  using assms
  by (simp add: upload_POST_def json_response_def Let_def wordCount_tokenCount
      del: length_greater_0_conv)

theorem upload_preextracted_short_circuit_witness:
  "upload_POST (\<lambda>f. None)
     (Some \<lparr>form_file = Some \<lparr>file_type = js ''image/png'', file_name = js ''scan.png'',
                file_size = 99999999, file_text = []\<rparr>,
            form_extractedText = Some (js ''a  b c '')\<rparr>) =
     \<lparr>status = 200,
      body = JObj [(js ''text'', JStr (js ''a  b c '')),
                   (js ''wordCount'', JNum 3),
                   (js ''fileType'', JStr (js ''text/plain'')),
                   (js ''fileName'', JStr (js ''document.txt'')),
                   (js ''fileSize'', JNum 0)]\<rparr>"
proof -
  let ?d = "\<lparr>form_file = Some \<lparr>file_type = js ''image/png'', file_name = js ''scan.png'',
                file_size = 99999999, file_text = []\<rparr>,
            form_extractedText = Some (js ''a  b c '')\<rparr>"
  have h1: "form_extractedText ?d = Some (js ''a  b c '')" by simp
  have h2: "js ''a  b c '' \<noteq> []" by (simp add: js_def)
  have h3: "tokenCount (js ''a  b c '') = 3" by code_simp
  show ?thesis
    using upload_preextracted_short_circuit [OF h1 h2, of "\<lambda>f. None"] h3 by simp
qed

text \<open>The two shapes of a 200 response of the upload route.\<close>

lemma upload_POST_ok_keys:
  assumes "status (upload_POST m request) = 200"
  shows "keys (body (upload_POST m request)) =
       [js ''text'', js ''wordCount'', js ''fileType'', js ''fileName'', js ''fileSize''] \<or>
     keys (body (upload_POST m request)) =
       [js ''success'', js ''text'', js ''filename'', js ''fileSize'', js ''wordCount'']"
proof (cases request)
  case None
  then show ?thesis using assms by (simp add: upload_POST_def error_response_def)
next
  case (Some data)
  show ?thesis
  proof (cases "form_extractedText data \<noteq> None \<and> form_extractedText data \<noteq> Some []")
    case True
    then have "keys (body (upload_POST m request)) =
       [js ''text'', js ''wordCount'', js ''fileType'', js ''fileName'', js ''fileSize'']"
      unfolding Some by (simp add: upload_POST_def json_response_def Let_def)
    then show ?thesis ..
  next
    case False
    then have short: "(form_extractedText data \<noteq> None \<and> form_extractedText data \<noteq> Some []) = False"
      by simp
    show ?thesis
    proof (cases "form_file data")
      case None
      have "upload_POST m request = error_response ''No file uploaded'' 400"
        unfolding \<open>request = Some data\<close> upload_POST_def
        by (simp only: option.case short if_False None)
      then show ?thesis using assms by (simp add: error_response_def)
    next
      case (Some f)
      note ff = this
      define extracted where "extracted =
        (if file_type f = docx_type then m f
         else if file_type f = plain_type then Some (file_text f) else Some [])"
      have eq: "upload_POST m request =
        (if file_type f \<notin> set [docx_type, plain_type] then
           error_response
             ''Invalid file type. Please upload DOCX or TXT files for server-side processing.'' 400
         else if file_size f > 10 * 1024 * 1024 then error_response ''File too large'' 400
         else
           (case extracted of
              None \<Rightarrow> error_response ''Failed to extract text from file'' 500
            | Some text \<Rightarrow>
               (if text = [] \<or> length (trim text) = 0 then
                  error_response ''No text could be extracted from the file'' 400
                else
                  json_response (JObj
                    [(js ''success'', JBool True),
                     (js ''text'', JStr (if length text > 100000
                                       then take 100000 text @ js ''...'' else text)),
                     (js ''filename'', JStr (file_name f)),
                     (js ''fileSize'', JNum (int (file_size f))),
                     (js ''wordCount'', JNum (int (length (filter (\<lambda>word. length word > 0)
                        (split_ws (if length text > 100000
                                       then take 100000 text @ js ''...'' else text))))))]))))"
        unfolding \<open>request = Some data\<close> upload_POST_def extracted_def
        by (simp only: option.case short if_False ff Let_def)
      have st: "status (error_response msg 400) \<noteq> 200" "status (error_response msg 500) \<noteq> 200"
        for msg by (simp_all add: error_response_def)
      have "keys (body (upload_POST m request)) =
         [js ''success'', js ''text'', js ''filename'', js ''fileSize'', js ''wordCount'']"
        using assms unfolding eq
        by (cases extracted) (auto simp: st json_response_def split: if_splits)
      then show ?thesis ..
    qed
  qed
qed

text \<open>
  Claim C7.  A 200 response of the upload route should be an object with exactly the
  properties \<open>text\<close>, \<open>wordCount\<close>, \<open>fileType\<close>, \<open>fileName\<close> and \<open>fileSize\<close>;
  the short-circuit path answers so.  The extraction path answers a five-byte text
  file with the properties \<open>success\<close>, \<open>text\<close>, \<open>filename\<close>, \<open>fileSize\<close> and
  \<open>wordCount\<close>: no \<open>fileType\<close>, and \<open>filename\<close> in place of \<open>fileName\<close>.
\<close>

theorem upload_extraction_path_fields:
  "status (upload_POST (\<lambda>f. None)
      (Some \<lparr>form_file = Some \<lparr>file_type = plain_type, file_name = js ''a.txt'',
                 file_size = 5, file_text = js ''hello''\<rparr>,
             form_extractedText = None\<rparr>)) = 200 \<and>
   keys (body (upload_POST (\<lambda>f. None)
      (Some \<lparr>form_file = Some \<lparr>file_type = plain_type, file_name = js ''a.txt'',
                 file_size = 5, file_text = js ''hello''\<rparr>,
             form_extractedText = None\<rparr>))) =
     [js ''success'', js ''text'', js ''filename'', js ''fileSize'', js ''wordCount'']"
proof -
  let ?f = "\<lparr>file_type = plain_type, file_name = js ''a.txt'', file_size = 5,
       file_text = js ''hello''\<rparr>"
  have h1: "file_type ?f = plain_type" by simp
  have h2: "trim (file_text ?f) \<noteq> []"
    by (simp add: trim_empty_iff js_def isSpace_def)
  have h3: "file_size ?f \<le> 10 * 1024 * 1024" by simp
  show ?thesis
    unfolding upload_POST_plain [OF h1 h2 h3, of None, simplified]
    by (simp add: json_response_def)
qed

section \<open>The prompt\<close>

lemma js_Nil_iff: "js s = [] \<longleftrightarrow> s = []"
  by (simp add: js_def)

lemma js_append: "js (a @ b) = js a @ js b"
  by (simp add: js_def)

lemma includes_js_here: "includes_js (p @ b) p"
proof (cases "p @ b")
  case Nil
  then show ?thesis by simp
next
  case (Cons c cs)
  have "take (length p) (p @ b) = p" by simp
  then show ?thesis unfolding Cons by simp
qed

lemma includes_js_append: "includes_js (a @ p @ b) p"
  by (induction a) (auto simp: includes_js_here)

lemma tone_prefix:
  "\<exists>pre. buildPrompt big other st cl tone text = pre @ basePrompt big st cl text"
  by (cases tone) (auto simp: buildPrompt_def Let_def)

lemma basePrompt_custom:
  "basePrompt big (Some (js ''custom'')) cl text =
     js ''Please summarize the following text in '' @
     (js ''approximately '' @
        numToString big (case cl of None \<Rightarrow> 200 | Some n \<Rightarrow> if n = 0 then 200 else n) @
        js '' words'') @
     js ''. Maintain the essential information while being concise:'' @ [0x0A, 0x0A] @ text"
  by (simp add: basePrompt_def js_eq_iff Let_def js_append [symmetric])

lemma custom_includes:
  "includes_js (buildPrompt big other (Some (js ''custom'')) cl tone text)
     (js ''approximately '' @
        numToString big (case cl of None \<Rightarrow> 200 | Some n \<Rightarrow> if n = 0 then 200 else n) @
        js '' words'')"
proof -
  obtain pre where "buildPrompt big other (Some (js ''custom'')) cl tone text =
      pre @ basePrompt big (Some (js ''custom'')) cl text"
    using tone_prefix by blast
  then show ?thesis
    unfolding basePrompt_custom
    using includes_js_append [of "pre @ js ''Please summarize the following text in ''"
        "js ''approximately '' @
           numToString big (case cl of None \<Rightarrow> 200 | Some n \<Rightarrow> if n = 0 then 200 else n) @
           js '' words''"
        "js ''. Maintain the essential information while being concise:'' @ [0x0A, 0x0A] @ text"]
    by (simp only: append_assoc)
qed

lemma numToString_safe: "\<bar>n\<bar> \<le> 2 ^ 53 \<Longrightarrow> numToString big n = decimal n"
  by (simp add: numToString_def)

lemma decimal_200: "decimal 200 = js ''200''"
  by code_simp

lemma approx_200:
  "js ''approximately '' @ numToString big 200 @ js '' words'' = js ''approximately 200 words''"
  by (simp add: numToString_safe decimal_200 js_append [symmetric])

text \<open>
  Claim C5, as the code has it.  With the summary type \<open>custom\<close> and the custom
  length unset, the prompt contains the phrase \<open>approximately 200 words\<close>, whatever
  the tone and the text; and so it does for the custom length 0, which
  \<open>customLength || 200\<close> takes for unset.  For every other custom length \<open>n\<close> the
  prompt contains \<open>approximately\<close>, the text that JavaScript prints for \<open>n\<close>, and
  \<open>words\<close>; for an integer \<open>n\<close> of magnitude at most \<open>2\<^sup>5\<^sup>3\<close>, which covers the
  lengths from 50 to 1000 that the form offers, that text is the decimal numeral
  of \<open>n\<close>.
\<close>

theorem custom_prompt_length:
  "(cl = None \<or> cl = Some 0 \<longrightarrow>
      includes_js (buildPrompt big other (Some (js ''custom'')) cl tone text)
        (js ''approximately 200 words'')) \<and>
   (n \<noteq> 0 \<longrightarrow>
      includes_js (buildPrompt big other (Some (js ''custom'')) (Some n) tone text)
        (js ''approximately '' @ numToString big n @ js '' words'')) \<and>
   (n \<noteq> 0 \<and> \<bar>n\<bar> \<le> 2 ^ 53 \<longrightarrow>
      includes_js (buildPrompt big other (Some (js ''custom'')) (Some n) tone text)
        (js ''approximately '' @ decimal n @ js '' words''))"
proof (intro conjI impI)
  assume "cl = None \<or> cl = Some 0"
  then show "includes_js (buildPrompt big other (Some (js ''custom'')) cl tone text)
        (js ''approximately 200 words'')"
    using custom_includes [of big other cl tone "text"] by (auto simp: approx_200)
next
  assume "n \<noteq> 0"
  then show "includes_js (buildPrompt big other (Some (js ''custom'')) (Some n) tone text)
        (js ''approximately '' @ numToString big n @ js '' words'')"
    using custom_includes [of big other "Some n" tone "text"] by simp
next
  assume "n \<noteq> 0 \<and> \<bar>n\<bar> \<le> 2 ^ 53"
  then show "includes_js (buildPrompt big other (Some (js ''custom'')) (Some n) tone text)
        (js ''approximately '' @ decimal n @ js '' words'')"
    using custom_includes [of big other "Some n" tone "text"] by (simp add: numToString_safe)
qed

theorem custom_prompt_length_witness:
  "includes_js
     (buildPrompt (\<lambda>n. js ''Infinity'') (\<lambda>t. js ''undefined'') (Some (js ''custom'')) None
        (Some (js ''casual'')) (js ''The quick brown fox.''))
     (js ''approximately 200 words'') \<and>
   includes_js
     (buildPrompt (\<lambda>n. js ''Infinity'') (\<lambda>t. js ''undefined'') (Some (js ''custom'')) (Some 75)
        (Some (js ''casual'')) (js ''The quick brown fox.''))
     (js ''approximately 75 words'')"
proof -
  have n: "decimal 75 = js ''75''" by code_simp
  have a: "js ''approximately '' @ js ''75'' @ js '' words'' = js ''approximately 75 words''"
    by (simp add: js_def)
  have b: "(75::int) \<noteq> 0 \<and> \<bar>75::int\<bar> \<le> 2 ^ 53" by simp
  show ?thesis
    using custom_prompt_length [of None "\<lambda>n. js ''Infinity''" "\<lambda>t. js ''undefined''"
        "Some (js ''casual'')" "js ''The quick brown fox.''" 75] n a b
    by simp
qed

text \<open>
  Claim C5 as stated says that a custom length set to \<open>N\<close> makes the prompt ask for
  approximately \<open>N\<close> words.  For \<open>N = 0\<close> the prompt asks for approximately 200
  words and nowhere for approximately 0 words.
\<close>

theorem custom_length_zero_counterexample:
  "includes_js
     (buildPrompt (\<lambda>n. js ''Infinity'') (\<lambda>t. js ''undefined'') (Some (js ''custom'')) (Some 0)
        None (js ''The quick brown fox.''))
     (js ''approximately 200 words'') \<and>
   \<not> includes_js
     (buildPrompt (\<lambda>n. js ''Infinity'') (\<lambda>t. js ''undefined'') (Some (js ''custom'')) (Some 0)
        None (js ''The quick brown fox.''))
     (js ''approximately 0 words'')"
  by code_simp

text \<open>
  Claim C6.  For the tone \<open>neutral\<close> the prompt is the prompt of the summary type
  alone: no instruction is put before it.  For each of \<open>professional\<close>, \<open>casual\<close>
  and \<open>academic\<close> the prompt is one fixed instruction sentence, a space, and that
  same prompt unchanged.
\<close>

theorem tone_instruction:
  "buildPrompt big other st cl (Some (js ''neutral'')) text = basePrompt big st cl text \<and>
   buildPrompt big other st cl (Some (js ''professional'')) text =
     js ''Use a professional and formal tone.'' @ js '' '' @ basePrompt big st cl text \<and>
   buildPrompt big other st cl (Some (js ''casual'')) text =
     js ''Use a casual and conversational tone.'' @ js '' '' @ basePrompt big st cl text \<and>
   buildPrompt big other st cl (Some (js ''academic'')) text =
     js ''Use an academic and scholarly tone with precise language.'' @ js '' '' @
       basePrompt big st cl text"
  by (simp add: buildPrompt_def toneInstructions_def Let_def js_eq_iff js_Nil_iff)

section \<open>The summarize route\<close>

lemma summarize_POST_checked:
  assumes "req_text req = Some t" and "trim t \<noteq> []"
    and "GOOGLE_AI_API_KEY w = Some k" and "k \<noteq> []"
  shows "summarize_POST w (Some req) =
     (case generateContent w (buildPrompt (bigNumber w) (inheritedTone w) (req_summaryType req)
              (req_customLength req) (req_tone req) t) of
        Reply summary \<Rightarrow>
          (case generateContent w (highlightPrompt t) of
             GenerateThrows \<Rightarrow> summarize_failed
           | highlightResponse \<Rightarrow>
              json_response (JObj
                [(js ''success'', JBool True),
                 (js ''summary'', JStr summary),
                 (js ''highlights'', extractHighlights (JSON_parse w) highlightResponse),
                 (js ''originalWordCount'', JNum (int (length (split_ws t)))),
                 (js ''summaryWordCount'', JNum (int (length (split_ws summary)))),
                 (js ''compressionRatio'',
                    JNum (Math_round
                      (fl (fl (1 - fl (of_nat (length (split_ws summary))
                                         / of_nat (length (split_ws t)))) * 100))))]))
      | _ \<Rightarrow> summarize_failed)"
proof -
  have "t \<noteq> []" using assms(2) by (auto simp: trim_def)
  then show ?thesis
    using assms by (simp add: summarize_POST_def Let_def split: reply.splits)
qed

lemma summarize_POST_ok:
  assumes "status (summarize_POST w request) = 200"
  shows "\<exists>t summary hl.
     body (summarize_POST w request) = JObj
       [(js ''success'', JBool True),
        (js ''summary'', JStr summary),
        (js ''highlights'', hl),
        (js ''originalWordCount'', JNum (int (length (split_ws t)))),
        (js ''summaryWordCount'', JNum (int (length (split_ws summary)))),
        (js ''compressionRatio'',
           JNum (Math_round
             (fl (fl (1 - fl (of_nat (length (split_ws summary))
                                / of_nat (length (split_ws t)))) * 100))))]"
  using assms
  by (auto simp: summarize_POST_def Let_def error_response_def summarize_failed_def
      json_response_def split: option.splits reply.splits if_splits)

text \<open>
  Claim C3.  The summarize route answers 400 with an error body when the text of
  the request is missing or empty after trimming, whatever the credential; with a
  text that is not blank it answers 500 with an error body when
  \<open>GOOGLE_AI_API_KEY\<close> is unset (or empty); and with a text that is not blank and
  the credential set it answers neither of these two responses.
\<close>

theorem summarize_validation:
  "((req_text req = None \<or> (\<exists>t. req_text req = Some t \<and> trim t = [])) \<longrightarrow>
      summarize_POST w (Some req) =
        \<lparr>status = 400,
         body = JObj [(js ''error'', JStr (js ''No text provided for summarization''))]\<rparr>) \<and>
   ((\<exists>t. req_text req = Some t \<and> trim t \<noteq> []) \<and>
    (GOOGLE_AI_API_KEY w = None \<or> GOOGLE_AI_API_KEY w = Some []) \<longrightarrow>
      summarize_POST w (Some req) =
        \<lparr>status = 500,
         body = JObj [(js ''error'', JStr (js ''Gemini API key not configured''))]\<rparr>) \<and>
   ((\<exists>t. req_text req = Some t \<and> trim t \<noteq> []) \<and>
    (\<exists>k. GOOGLE_AI_API_KEY w = Some k \<and> k \<noteq> []) \<longrightarrow>
      summarize_POST w (Some req) \<noteq>
        \<lparr>status = 400,
         body = JObj [(js ''error'', JStr (js ''No text provided for summarization''))]\<rparr> \<and>
      summarize_POST w (Some req) \<noteq>
        \<lparr>status = 500,
         body = JObj [(js ''error'', JStr (js ''Gemini API key not configured''))]\<rparr>)"
proof (intro conjI impI)
  assume "req_text req = None \<or> (\<exists>t. req_text req = Some t \<and> trim t = [])"
  then show "summarize_POST w (Some req) =
        \<lparr>status = 400,
         body = JObj [(js ''error'', JStr (js ''No text provided for summarization''))]\<rparr>"
    by (auto simp: summarize_POST_def error_response_def)
next
  assume "(\<exists>t. req_text req = Some t \<and> trim t \<noteq> []) \<and>
    (GOOGLE_AI_API_KEY w = None \<or> GOOGLE_AI_API_KEY w = Some [])"
  then obtain t where t: "req_text req = Some t" "trim t \<noteq> []"
    and k: "GOOGLE_AI_API_KEY w = None \<or> GOOGLE_AI_API_KEY w = Some []" by blast
  have "t \<noteq> []" using t(2) by (auto simp: trim_def)
  then show "summarize_POST w (Some req) =
        \<lparr>status = 500,
         body = JObj [(js ''error'', JStr (js ''Gemini API key not configured''))]\<rparr>"
    using t k by (auto simp: summarize_POST_def error_response_def)
next
  assume a: "(\<exists>t. req_text req = Some t \<and> trim t \<noteq> []) \<and>
    (\<exists>k. GOOGLE_AI_API_KEY w = Some k \<and> k \<noteq> [])"
  then obtain t k where t: "req_text req = Some t" "trim t \<noteq> []"
    and k: "GOOGLE_AI_API_KEY w = Some k" "k \<noteq> []" by blast
  have cases: "summarize_POST w (Some req) = summarize_failed \<or>
      status (summarize_POST w (Some req)) = 200"
    unfolding summarize_POST_checked [OF t k]
    by (simp add: json_response_def split: reply.splits)
  have f: "summarize_failed =
      \<lparr>status = 500, body = JObj [(js ''error'',
         JStr (js ''Failed to generate summary. Please check your API key and try again.''))]\<rparr>"
    by (simp add: summarize_failed_def error_response_def)
  show "summarize_POST w (Some req) \<noteq>
        \<lparr>status = 400,
         body = JObj [(js ''error'', JStr (js ''No text provided for summarization''))]\<rparr>"
    using cases unfolding f by auto
  show "summarize_POST w (Some req) \<noteq>
        \<lparr>status = 500,
         body = JObj [(js ''error'', JStr (js ''Gemini API key not configured''))]\<rparr>"
    using cases unfolding f by (auto simp: js_eq_iff)
qed

theorem summarize_validation_witness:
  "summarize_POST
      \<lparr>GOOGLE_AI_API_KEY = Some (js ''key''),
       generateContent = (\<lambda>p. Reply (js ''A summary.'')),
       JSON_parse = (\<lambda>s. None),
       inheritedTone = (\<lambda>t. js ''undefined''),
       bigNumber = (\<lambda>n. js ''Infinity'')\<rparr>
      (Some \<lparr>req_text = Some (js ''   ''), req_summaryType = Some (js ''short''),
             req_customLength = None, req_tone = Some (js ''neutral'')\<rparr>) =
     \<lparr>status = 400,
      body = JObj [(js ''error'', JStr (js ''No text provided for summarization''))]\<rparr> \<and>
   summarize_POST
      \<lparr>GOOGLE_AI_API_KEY = None,
       generateContent = (\<lambda>p. Reply (js ''A summary.'')),
       JSON_parse = (\<lambda>s. None),
       inheritedTone = (\<lambda>t. js ''undefined''),
       bigNumber = (\<lambda>n. js ''Infinity'')\<rparr>
      (Some \<lparr>req_text = Some (js ''Some text.''), req_summaryType = Some (js ''short''),
             req_customLength = None, req_tone = Some (js ''neutral'')\<rparr>) =
     \<lparr>status = 500,
      body = JObj [(js ''error'', JStr (js ''Gemini API key not configured''))]\<rparr> \<and>
   summarize_POST
      \<lparr>GOOGLE_AI_API_KEY = Some (js ''key''),
       generateContent = (\<lambda>p. Reply (js ''A summary.'')),
       JSON_parse = (\<lambda>s. None),
       inheritedTone = (\<lambda>t. js ''undefined''),
       bigNumber = (\<lambda>n. js ''Infinity'')\<rparr>
      (Some \<lparr>req_text = Some (js ''Some text.''), req_summaryType = Some (js ''short''),
             req_customLength = None, req_tone = Some (js ''neutral'')\<rparr>) \<noteq>
     \<lparr>status = 500,
      body = JObj [(js ''error'', JStr (js ''Gemini API key not configured''))]\<rparr>"
proof -
  let ?gen = "\<lambda>p :: jsstring. Reply (js ''A summary.'')"
  let ?wk = "\<lparr>GOOGLE_AI_API_KEY = Some (js ''key''), generateContent = ?gen,
       JSON_parse = (\<lambda>s. None), inheritedTone = (\<lambda>t. js ''undefined''),
       bigNumber = (\<lambda>n. js ''Infinity'')\<rparr>"
  let ?wn = "\<lparr>GOOGLE_AI_API_KEY = None, generateContent = ?gen,
       JSON_parse = (\<lambda>s. None), inheritedTone = (\<lambda>t. js ''undefined''),
       bigNumber = (\<lambda>n. js ''Infinity'')\<rparr>"
  let ?blank = "\<lparr>req_text = Some (js ''   ''), req_summaryType = Some (js ''short''),
             req_customLength = None, req_tone = Some (js ''neutral'')\<rparr>"
  let ?good = "\<lparr>req_text = Some (js ''Some text.''), req_summaryType = Some (js ''short''),
             req_customLength = None, req_tone = Some (js ''neutral'')\<rparr>"
  have b: "trim (js ''   '') = []"
    by (simp add: trim_empty_iff js_def isSpace_def)
  have g: "trim (js ''Some text.'') \<noteq> []"
    by (simp add: trim_empty_iff js_def isSpace_def)
  have k: "js ''key'' \<noteq> []" by (simp add: js_def)
  have 1: "req_text ?blank = None \<or> (\<exists>t. req_text ?blank = Some t \<and> trim t = [])"
    using b by simp
  have 2: "(\<exists>t. req_text ?good = Some t \<and> trim t \<noteq> []) \<and>
      (GOOGLE_AI_API_KEY ?wn = None \<or> GOOGLE_AI_API_KEY ?wn = Some [])"
    using g by simp
  have 3: "(\<exists>t. req_text ?good = Some t \<and> trim t \<noteq> []) \<and>
      (\<exists>k. GOOGLE_AI_API_KEY ?wk = Some k \<and> k \<noteq> [])"
    using g k by simp
  show ?thesis
    using summarize_validation [of ?blank ?wk] summarize_validation [of ?good ?wn]
      summarize_validation [of ?good ?wk] 1 2 3
    by blast
qed

subsection \<open>Highlights\<close>

lemma braceDelimited_closing: "braceDelimited s \<Longrightarrow> 0x7D \<in> set s"
  by (induction s) auto

lemma braceDelimited_dropWhile:
  "braceDelimited s \<longleftrightarrow>
     dropWhile (\<lambda>c. c \<noteq> 0x7B) s \<noteq> [] \<and> 0x7D \<in> set (tl (dropWhile (\<lambda>c. c \<noteq> 0x7B) s))"
  by (induction s) (auto dest: braceDelimited_closing)

lemma jsonMatch_None_iff: "jsonMatch s = None \<longleftrightarrow> \<not> braceDelimited s"
  unfolding braceDelimited_dropWhile
  by (auto simp: jsonMatch_def Let_def dropWhile_eq_Nil_conv)

lemma braceDelimited_decomp:
  "braceDelimited s \<longleftrightarrow> (\<exists>u v w. s = u @ [0x7B] @ v @ [0x7D] @ w)"
proof (induction s)
  case Nil
  then show ?case by simp
next
  case (Cons c cs)
  show ?case
  proof
    assume "braceDelimited (c # cs)"
    then consider "c = 0x7B" "0x7D \<in> set cs" | "braceDelimited cs" by auto
    then show "\<exists>u v w. c # cs = u @ [0x7B] @ v @ [0x7D] @ w"
    proof cases
      case 1
      then obtain v w where "cs = v @ 0x7D # w" by (meson split_list)
      then have "c # cs = [] @ [0x7B] @ v @ [0x7D] @ w" using 1 by simp
      then show ?thesis by blast
    next
      case 2
      then obtain u v w where "cs = u @ [0x7B] @ v @ [0x7D] @ w" using Cons.IH by blast
      then have "c # cs = (c # u) @ [0x7B] @ v @ [0x7D] @ w" by simp
      then show ?thesis by blast
    qed
  next
    assume "\<exists>u v w. c # cs = u @ [0x7B] @ v @ [0x7D] @ w"
    then obtain u v w where eq: "c # cs = u @ [0x7B] @ v @ [0x7D] @ w" by blast
    show "braceDelimited (c # cs)"
    proof (cases u)
      case Nil
      then show ?thesis using eq by auto
    next
      case (Cons a u')
      then have "cs = u' @ [0x7B] @ v @ [0x7D] @ w" using eq by simp
      then have "braceDelimited cs" using Cons.IH by blast
      then show ?thesis by simp
    qed
  qed
qed

text \<open>
  Claim C4.  When the summary has been generated and the reply to the highlight
  prompt contains no brace-delimited substring, or the substring that the regular
  expression matches does not parse as JSON, the route answers 200 with the
  generated summary and the highlights \<open>{keywords: [], names: [], dates: []}\<close>.
\<close>

theorem highlights_fallback:
  assumes "req_text req = Some t" and "trim t \<noteq> []"
    and "GOOGLE_AI_API_KEY w = Some k" and "k \<noteq> []"
    and "generateContent w (buildPrompt (bigNumber w) (inheritedTone w) (req_summaryType req)
           (req_customLength req) (req_tone req) t) = Reply summary"
    and "generateContent w (highlightPrompt t) = Reply highlightText"
    and "\<not> braceDelimited highlightText \<or>
         (\<exists>m. jsonMatch highlightText = Some m \<and> JSON_parse w m = None)"
  shows "status (summarize_POST w (Some req)) = 200 \<and>
     field (body (summarize_POST w (Some req))) (js ''summary'') = Some (JStr summary) \<and>
     field (body (summarize_POST w (Some req))) (js ''highlights'') =
       Some (JObj [(js ''keywords'', JArr []), (js ''names'', JArr []), (js ''dates'', JArr [])])"
proof -
  have h: "extractHighlights (JSON_parse w) (Reply highlightText) = defaultHighlights"
    using assms(7) by (auto simp: extractHighlights_def jsonMatch_None_iff [symmetric])
  show ?thesis
    unfolding summarize_POST_checked [OF assms(1-4)] assms(5,6)
    by (simp add: json_response_def h js_eq_iff defaultHighlights_def)
qed

theorem highlights_fallback_witness:
  "field (body (summarize_POST
      \<lparr>GOOGLE_AI_API_KEY = Some (js ''key''),
       generateContent =
         (\<lambda>p. if take 4 p = js ''From'' then Reply (js ''No entities found.'')
              else Reply (js ''A short summary.'')),
       JSON_parse = (\<lambda>s. None),
       inheritedTone = (\<lambda>t. js ''undefined''),
       bigNumber = (\<lambda>n. js ''Infinity'')\<rparr>
      (Some \<lparr>req_text = Some (js ''Alice met Bob.''), req_summaryType = Some (js ''short''),
             req_customLength = None, req_tone = Some (js ''neutral'')\<rparr>)))
     (js ''highlights'') =
     Some (JObj [(js ''keywords'', JArr []), (js ''names'', JArr []), (js ''dates'', JArr [])]) \<and>
   field (body (summarize_POST
      \<lparr>GOOGLE_AI_API_KEY = Some (js ''key''),
       generateContent =
         (\<lambda>p. if take 4 p = js ''From'' then Reply (js ''Here: {keywords: Alice} done'')
              else Reply (js ''A short summary.'')),
       JSON_parse = (\<lambda>s. None),
       inheritedTone = (\<lambda>t. js ''undefined''),
       bigNumber = (\<lambda>n. js ''Infinity'')\<rparr>
      (Some \<lparr>req_text = Some (js ''Alice met Bob.''), req_summaryType = Some (js ''short''),
             req_customLength = None, req_tone = Some (js ''neutral'')\<rparr>)))
     (js ''summary'') = Some (JStr (js ''A short summary.''))"
proof -
  let ?g1 = "\<lambda>p. if take 4 p = js ''From'' then Reply (js ''No entities found.'')
              else Reply (js ''A short summary.'')"
  let ?g2 = "\<lambda>p. if take 4 p = js ''From'' then Reply (js ''Here: {keywords: Alice} done'')
              else Reply (js ''A short summary.'')"
  let ?w1 = "\<lparr>GOOGLE_AI_API_KEY = Some (js ''key''), generateContent = ?g1,
       JSON_parse = (\<lambda>s. None), inheritedTone = (\<lambda>t. js ''undefined''),
       bigNumber = (\<lambda>n. js ''Infinity'')\<rparr>"
  let ?w2 = "\<lparr>GOOGLE_AI_API_KEY = Some (js ''key''), generateContent = ?g2,
       JSON_parse = (\<lambda>s. None), inheritedTone = (\<lambda>t. js ''undefined''),
       bigNumber = (\<lambda>n. js ''Infinity'')\<rparr>"
  let ?r = "\<lparr>req_text = Some (js ''Alice met Bob.''), req_summaryType = Some (js ''short''),
             req_customLength = None, req_tone = Some (js ''neutral'')\<rparr>"
  have t: "req_text ?r = Some (js ''Alice met Bob.'')" by simp
  have tr: "trim (js ''Alice met Bob.'') \<noteq> []"
    by (simp add: trim_empty_iff js_def isSpace_def)
  have k1: "GOOGLE_AI_API_KEY ?w1 = Some (js ''key'')"
    and k2: "GOOGLE_AI_API_KEY ?w2 = Some (js ''key'')" by simp_all
  have k: "js ''key'' \<noteq> []" by (simp add: js_def)
  have p: "take 4 (buildPrompt (\<lambda>n. js ''Infinity'') (\<lambda>t. js ''undefined'') (Some (js ''short'')) None
      (Some (js ''neutral'')) (js ''Alice met Bob.'')) = js ''Plea''"
    by (simp add: buildPrompt_def basePrompt_def js_def)
  have q: "take 4 (highlightPrompt (js ''Alice met Bob.'')) = js ''From''"
    by (simp add: highlightPrompt_def js_def)
  have ne: "js ''Plea'' \<noteq> js ''From''" by (simp add: js_eq_iff)
  have s1: "generateContent ?w1 (buildPrompt (bigNumber ?w1) (inheritedTone ?w1) (req_summaryType ?r)
           (req_customLength ?r) (req_tone ?r) (js ''Alice met Bob.'')) = Reply (js ''A short summary.'')"
    using p ne by simp
  have s2: "generateContent ?w2 (buildPrompt (bigNumber ?w2) (inheritedTone ?w2) (req_summaryType ?r)
           (req_customLength ?r) (req_tone ?r) (js ''Alice met Bob.'')) = Reply (js ''A short summary.'')"
    using p ne by simp
  have h1: "generateContent ?w1 (highlightPrompt (js ''Alice met Bob.'')) =
      Reply (js ''No entities found.'')"
    using q by simp
  have h2: "generateContent ?w2 (highlightPrompt (js ''Alice met Bob.'')) =
      Reply (js ''Here: {keywords: Alice} done'')"
    using q by simp
  have b1: "\<not> braceDelimited (js ''No entities found.'')" by code_simp
  have m2: "jsonMatch (js ''Here: {keywords: Alice} done'') = Some (js ''{keywords: Alice}'')"
    by code_simp
  have c1: "\<not> braceDelimited (js ''No entities found.'') \<or>
      (\<exists>m. jsonMatch (js ''No entities found.'') = Some m \<and> JSON_parse ?w1 m = None)"
    using b1 by simp
  have c2: "\<not> braceDelimited (js ''Here: {keywords: Alice} done'') \<or>
      (\<exists>m. jsonMatch (js ''Here: {keywords: Alice} done'') = Some m \<and> JSON_parse ?w2 m = None)"
    using m2 by simp
  show ?thesis
    using highlights_fallback [OF t tr k1 k s1 h1 c1] highlights_fallback [OF t tr k2 k s2 h2 c2]
    by blast
qed

subsection \<open>The compression ratio\<close>

lemma rne_ge: "of_int k \<le> x \<Longrightarrow> k \<le> rne x"
proof -
  assume "of_int k \<le> x"
  then have "k \<le> \<lfloor>x\<rfloor>" by (simp add: le_floor_iff)
  then show ?thesis by (auto simp: rne_def Let_def)
qed

lemma rne_le: "x \<le> of_int k \<Longrightarrow> rne x \<le> k"
proof (cases "x = of_int k")
  case True
  then show ?thesis by (simp add: rne_def)
next
  case False
  assume "x \<le> of_int k"
  with False have "x < of_int k" by simp
  then have "\<lfloor>x\<rfloor> < k" by (simp add: floor_less_iff)
  then show ?thesis by (auto simp: rne_def Let_def)
qed

lemma floorlog_pos: "0 < n \<Longrightarrow> 0 < floorlog 2 n"
  by (simp add: floorlog_def)

lemma ilog2_ge1:
  assumes "1 \<le> x"
  shows "0 \<le> ilog2 x" and "2 powi (ilog2 x) \<le> x"
proof -
  define n where "n = nat \<lfloor>x\<rfloor>"
  have fx: "1 \<le> \<lfloor>x\<rfloor>" using assms by (simp add: le_floor_iff)
  then have n: "0 < n" by (simp add: n_def)
  define k where "k = floorlog 2 n"
  have k: "0 < k" unfolding k_def using n by (rule floorlog_pos)
  have e: "ilog2 x = int (k - 1)"
    using assms k by (simp add: ilog2_def k_def n_def of_nat_diff)
  show "0 \<le> ilog2 x" unfolding e by simp
  have "2 ^ (k - 1) \<le> n" unfolding k_def using floorlog_bounds [of n 2] n by simp
  then have "(2::int) ^ (k - 1) \<le> int n" by (metis of_nat_le_iff of_nat_numeral of_nat_power)
  then have "(2::int) ^ (k - 1) \<le> \<lfloor>x\<rfloor>" using fx by (simp add: n_def)
  then have "(2::rat) ^ (k - 1) \<le> of_int \<lfloor>x\<rfloor>"
    by (metis of_int_le_iff of_int_numeral of_int_power)
  also have "\<dots> \<le> x" by simp
  finally show "2 powi (ilog2 x) \<le> x" unfolding e by simp
qed

lemma ilog2_lt1:
  assumes "0 < x" and "x < 1"
  shows "ilog2 x \<le> - 1" and "x < 2 powi (ilog2 x + 1)"
proof -
  define c where "c = \<lceil>1 / x\<rceil>"
  define n where "n = nat (c - 1)"
  have y: "1 < 1 / x" using assms by simp
  then have c: "2 \<le> c" unfolding c_def by (simp add: le_ceiling_iff)
  then have n: "0 < n" by (simp add: n_def)
  define k where "k = floorlog 2 n"
  have k: "0 < k" unfolding k_def using n by (rule floorlog_pos)
  have e: "ilog2 x = - int k"
    using assms by (simp add: ilog2_def k_def n_def c_def)
  show "ilog2 x \<le> - 1" unfolding e using k by simp
  have "2 ^ (k - 1) \<le> n" unfolding k_def using floorlog_bounds [of n 2] n by simp
  then have "(2::int) ^ (k - 1) \<le> int n" by (metis of_nat_le_iff of_nat_numeral of_nat_power)
  then have "(2::int) ^ (k - 1) \<le> c - 1" using c by (simp add: n_def)
  then have "(2::rat) ^ (k - 1) \<le> of_int (c - 1)"
    by (metis of_int_le_iff of_int_numeral of_int_power)
  also have "of_int (c - 1) < 1 / x"
    unfolding c_def using ceiling_correct [of "1 / x"] by simp
  finally have lt: "(2::rat) ^ (k - 1) < 1 / x" .
  have "x * 2 ^ (k - 1) < 1"
    using lt assms(1) by (simp add: field_simps)
  then have "x < 1 / 2 ^ (k - 1)" by (simp add: field_simps)
  also have "1 / 2 ^ (k - 1) = (2::rat) powi (- int (k - 1))"
    by (simp add: power_int_minus field_simps)
  also have "- int (k - 1) = ilog2 x + 1" unfolding e using k by (simp add: of_nat_diff)
  finally show "x < 2 powi (ilog2 x + 1)" .
qed

lemma fl_pos_eq:
  "0 < x \<Longrightarrow> fl x = of_int (rne (x / 2 powi (ilog2 x - 52))) * 2 powi (ilog2 x - 52)"
  by (simp add: fl_def Let_def)

lemma fl_ge1:
  assumes "1 \<le> x"
  shows "1 \<le> fl x"
proof -
  define e where "e = ilog2 x"
  define u :: rat where "u = 2 powi (e - 52)"
  have u: "0 < u" by (simp add: u_def)
  have e: "0 \<le> e" and lo: "2 powi e \<le> x"
    unfolding e_def using ilog2_ge1 [OF assms] by simp_all
  have "(2::rat) powi e = 2 ^ 52 * u"
    unfolding u_def by (simp add: power_int_diff)
  then have "2 ^ 52 * u \<le> x" using lo by simp
  then have "of_int (2 ^ 52) \<le> x / u" using u by (simp add: field_simps)
  then have "2 ^ 52 \<le> rne (x / u)" by (rule rne_ge)
  then have "(2::rat) ^ 52 \<le> of_int (rne (x / u))"
    by (metis of_int_le_iff of_int_numeral of_int_power)
  then have "2 ^ 52 * u \<le> of_int (rne (x / u)) * u"
    using u by (simp add: mult_right_mono)
  moreover have "1 \<le> (2::rat) powi e" using e by (simp add: one_le_power_int)
  ultimately have "1 \<le> of_int (rne (x / u)) * u"
    using \<open>(2::rat) powi e = 2 ^ 52 * u\<close> by linarith
  then show ?thesis
    using assms unfolding u_def e_def by (simp add: fl_pos_eq)
qed

lemma fl_one: "fl 1 = 1"
  by code_simp

lemma fl_le1:
  assumes "0 < x" and "x \<le> 1"
  shows "fl x \<le> 1"
proof (cases "x = 1")
  case True
  then show ?thesis by (simp add: fl_one)
next
  case False
  then have x1: "x < 1" using assms by simp
  define e where "e = ilog2 x"
  define u :: rat where "u = 2 powi (e - 52)"
  have u: "0 < u" by (simp add: u_def)
  have e: "e \<le> - 1" and hi: "x < 2 powi (e + 1)"
    unfolding e_def using ilog2_lt1 [OF assms(1) x1] by simp_all
  have p: "(2::rat) powi (e + 1) = 2 ^ 53 * u"
    unfolding u_def by (simp add: power_int_diff power_int_add)
  then have "x \<le> 2 ^ 53 * u" using hi by simp
  then have "x / u \<le> of_int (2 ^ 53)" using u by (simp add: field_simps)
  then have "rne (x / u) \<le> 2 ^ 53" by (rule rne_le)
  then have "of_int (rne (x / u)) \<le> (2::rat) ^ 53"
    by (metis of_int_le_iff of_int_numeral of_int_power)
  then have "of_int (rne (x / u)) * u \<le> 2 ^ 53 * u"
    using u by (simp add: mult_right_mono)
  moreover have "(2::rat) powi (e + 1) \<le> 1"
    using power_int_increasing [of "e + 1" 0 "2::rat"] e by simp
  ultimately have "of_int (rne (x / u)) * u \<le> 1" using p by linarith
  then show ?thesis
    using assms(1) unfolding u_def e_def by (simp add: fl_pos_eq)
qed

lemma rne_nonneg: "0 \<le> x \<Longrightarrow> 0 \<le> rne x"
  using rne_ge [of 0 x] by simp

lemma fl_nonneg: "0 \<le> x \<Longrightarrow> 0 \<le> fl x"
  by (auto simp: fl_def Let_def rne_nonneg)

lemma fl_nonpos:
  assumes "x \<le> 0"
  shows "fl x \<le> 0"
proof (cases "x = 0")
  case True
  then show ?thesis by (simp add: fl_def)
next
  case False
  define u :: rat where "u = 2 powi (ilog2 \<bar>x\<bar> - 52)"
  have u: "0 < u" by (simp add: u_def)
  have "0 \<le> \<bar>x\<bar> / u" using u by simp
  then have "0 \<le> rne (\<bar>x\<bar> / u)" by (rule rne_nonneg)
  then have "0 \<le> of_int (rne (\<bar>x\<bar> / u)) * u" using u by simp
  moreover have "fl x = - (of_int (rne (\<bar>x\<bar> / u)) * u)"
    using assms False by (simp add: fl_def Let_def u_def)
  ultimately show ?thesis by simp
qed

text \<open>
  \<open>fl\<close> is the rounding to 53 bits: its value is an integer significand between
  \<open>2\<^sup>5\<^sup>2\<close> and \<open>2\<^sup>5\<^sup>3\<close> times \<open>2\<^sup>e\<^sup>-\<^sup>5\<^sup>2\<close>, and it is within half a unit in the
  last place of its argument.
\<close>

lemma ilog2_bounds:
  assumes "0 < x"
  shows "2 powi (ilog2 x) \<le> x" and "x < 2 powi (ilog2 x + 1)"
proof -
  show "2 powi (ilog2 x) \<le> x"
  proof (cases "1 \<le> x")
    case True
    then show ?thesis by (rule ilog2_ge1)
  next
    case False
    then have x1: "x < 1" by simp
    define c where "c = \<lceil>1 / x\<rceil>"
    define n where "n = nat (c - 1)"
    have y: "1 < 1 / x" using assms x1 by simp
    then have c: "2 \<le> c" unfolding c_def by (simp add: le_ceiling_iff)
    then have n: "0 < n" by (simp add: n_def)
    define k where "k = floorlog 2 n"
    have e: "ilog2 x = - int k"
      using x1 by (simp add: ilog2_def k_def n_def c_def)
    have "n < 2 ^ k" unfolding k_def using floorlog_bounds [of n 2] n by simp
    then have "int n < 2 ^ k" by (metis of_nat_less_iff of_nat_numeral of_nat_power)
    then have "c \<le> 2 ^ k" using c by (simp add: n_def)
    then have ck: "of_int c \<le> (2::rat) ^ k"
      by (metis of_int_le_iff of_int_numeral of_int_power)
    have "1 / x \<le> of_int c" unfolding c_def by (rule le_of_int_ceiling)
    then have "1 / x \<le> 2 ^ k" using ck by (rule order_trans)
    then have "1 \<le> x * 2 ^ k" using assms by (simp add: field_simps)
    then have "1 / 2 ^ k \<le> x" by (simp add: field_simps)
    moreover have "1 / 2 ^ k = (2::rat) powi (- int k)"
      by (simp add: power_int_minus field_simps)
    ultimately show ?thesis unfolding e by simp
  qed
  show "x < 2 powi (ilog2 x + 1)"
  proof (cases "1 \<le> x")
    case False
    then show ?thesis using assms ilog2_lt1 [of x] by simp
  next
    case True
    define n where "n = nat \<lfloor>x\<rfloor>"
    have fx: "1 \<le> \<lfloor>x\<rfloor>" using True by (simp add: le_floor_iff)
    then have n: "0 < n" by (simp add: n_def)
    define k where "k = floorlog 2 n"
    have k: "0 < k" unfolding k_def using n by (rule floorlog_pos)
    have e: "ilog2 x + 1 = int k"
      using True k by (simp add: ilog2_def k_def n_def)
    have "n < 2 ^ k" unfolding k_def using floorlog_bounds [of n 2] n by simp
    then have "int n < 2 ^ k" by (metis of_nat_less_iff of_nat_numeral of_nat_power)
    then have "\<lfloor>x\<rfloor> + 1 \<le> 2 ^ k" using fx by (simp add: n_def)
    then have fk: "of_int (\<lfloor>x\<rfloor> + 1) \<le> (2::rat) ^ k"
      by (metis of_int_le_iff of_int_numeral of_int_power)
    have "x < of_int (\<lfloor>x\<rfloor> + 1)" by linarith
    then have "x < 2 ^ k" using fk by (rule less_le_trans)
    then show ?thesis unfolding e by simp
  qed
qed

lemma rne_error: "\<bar>of_int (rne y) - y\<bar> \<le> 1 / 2"
proof -
  define d where "d = y - of_int \<lfloor>y\<rfloor>"
  have d: "0 \<le> d" "d < 1" unfolding d_def by linarith+
  have y: "y = of_int \<lfloor>y\<rfloor> + d" unfolding d_def by simp
  consider "d < 1 / 2" | "1 / 2 < d" | "d = 1 / 2" by linarith
  then show ?thesis
  proof cases
    case 1
    then have "rne y = \<lfloor>y\<rfloor>" by (simp add: rne_def Let_def d_def)
    then show ?thesis using d 1 y by simp
  next
    case 2
    then have "rne y = \<lfloor>y\<rfloor> + 1" by (simp add: rne_def Let_def d_def)
    then have "of_int (rne y) - y = 1 - d" using y by simp
    then show ?thesis using d 2 by simp
  next
    case 3
    then have "rne y = \<lfloor>y\<rfloor> \<or> rne y = \<lfloor>y\<rfloor> + 1"
      by (simp add: rne_def Let_def d_def)
    then have "of_int (rne y) - y = - d \<or> of_int (rne y) - y = 1 - d"
      using y by auto
    then show ?thesis using 3 by auto
  qed
qed

lemma fl_error:
  assumes "x \<noteq> 0"
  shows "\<bar>fl x - x\<bar> \<le> 2 powi (ilog2 \<bar>x\<bar> - 53)"
proof -
  define u :: rat where "u = 2 powi (ilog2 \<bar>x\<bar> - 52)"
  have u: "0 < u" by (simp add: u_def)
  have half: "u / 2 = 2 powi (ilog2 \<bar>x\<bar> - 53)"
    unfolding u_def by (simp add: power_int_diff)
  have f: "fl x = sgn x * (of_int (rne (\<bar>x\<bar> / u)) * u)"
    using assms by (simp add: fl_def Let_def u_def)
  have "fl x - x = sgn x * ((of_int (rne (\<bar>x\<bar> / u)) - \<bar>x\<bar> / u) * u)"
    unfolding f using u by (simp add: algebra_simps sgn_if)
  then have "\<bar>fl x - x\<bar> = \<bar>of_int (rne (\<bar>x\<bar> / u)) - \<bar>x\<bar> / u\<bar> * u"
    using assms u by (simp add: abs_mult sgn_if)
  also have "\<dots> \<le> 1 / 2 * u"
    using rne_error [of "\<bar>x\<bar> / u"] u by (simp add: mult_right_mono)
  finally show ?thesis using half by simp
qed

lemma fl_significand:
  assumes "x \<noteq> 0"
  shows "\<exists>k. fl x = of_int k * 2 powi (ilog2 \<bar>x\<bar> - 52) \<and> 2 ^ 52 \<le> \<bar>k\<bar> \<and> \<bar>k\<bar> \<le> 2 ^ 53"
proof -
  define e where "e = ilog2 \<bar>x\<bar>"
  define u :: rat where "u = 2 powi (e - 52)"
  define r where "r = rne (\<bar>x\<bar> / u)"
  have u: "0 < u" by (simp add: u_def)
  have pos: "0 < \<bar>x\<bar>" using assms by simp
  have lo: "2 powi e \<le> \<bar>x\<bar>" and hi: "\<bar>x\<bar> < 2 powi (e + 1)"
    unfolding e_def using ilog2_bounds [OF pos] by simp_all
  have p0: "(2::rat) powi e = 2 ^ 52 * u"
    unfolding u_def by (simp add: power_int_diff)
  have p1: "(2::rat) powi (e + 1) = 2 ^ 53 * u"
    unfolding u_def by (simp add: power_int_diff power_int_add)
  have "of_int (2 ^ 52) \<le> \<bar>x\<bar> / u" using lo p0 u by (simp add: field_simps)
  then have r0: "2 ^ 52 \<le> r" unfolding r_def by (rule rne_ge)
  have "\<bar>x\<bar> / u \<le> of_int (2 ^ 53)" using hi p1 u by (simp add: field_simps)
  then have r1: "r \<le> 2 ^ 53" unfolding r_def by (rule rne_le)
  have "fl x = of_int (sgn (if 0 < x then 1 else - 1) * r) * u"
    using assms by (simp add: fl_def Let_def u_def e_def r_def sgn_if)
  moreover have "\<bar>sgn (if 0 < x then 1 else - 1) * r\<bar> = r"
    using r0 by (simp add: abs_mult)
  ultimately show ?thesis
    using r0 r1 unfolding u_def e_def by metis
qed

lemma Math_round_nonpos: "x \<le> 0 \<Longrightarrow> Math_round x \<le> 0"
proof -
  assume "x \<le> 0"
  then have "x + 1 / 2 < 1" by simp
  then have "\<lfloor>x + 1 / 2\<rfloor> < 1" by (simp add: floor_less_iff)
  then show ?thesis by (simp add: Math_round_def)
qed

lemma Math_round_nonneg: "0 \<le> x \<Longrightarrow> 0 \<le> Math_round x"
  by (simp add: Math_round_def)

lemma ratio_nonpositive:
  assumes "0 < n" and "n < m"
  shows "Math_round (fl (fl (1 - fl (rat_of_nat m / rat_of_nat n)) * 100)) \<le> 0"
proof -
  have "1 \<le> rat_of_nat m / rat_of_nat n" using assms by simp
  then have "1 \<le> fl (rat_of_nat m / rat_of_nat n)" by (rule fl_ge1)
  then have "fl (1 - fl (rat_of_nat m / rat_of_nat n)) \<le> 0" by (simp add: fl_nonpos)
  then have "fl (1 - fl (rat_of_nat m / rat_of_nat n)) * 100 \<le> 0" by simp
  then have "fl (fl (1 - fl (rat_of_nat m / rat_of_nat n)) * 100) \<le> 0" by (rule fl_nonpos)
  then show ?thesis by (rule Math_round_nonpos)
qed

lemma ratio_nonnegative:
  assumes "0 < n" and "0 < m" and "m \<le> n"
  shows "0 \<le> Math_round (fl (fl (1 - fl (rat_of_nat m / rat_of_nat n)) * 100))"
proof -
  have "0 < rat_of_nat m / rat_of_nat n" "rat_of_nat m / rat_of_nat n \<le> 1"
    using assms by simp_all
  then have "fl (rat_of_nat m / rat_of_nat n) \<le> 1" by (rule fl_le1)
  then have "0 \<le> fl (1 - fl (rat_of_nat m / rat_of_nat n))" by (simp add: fl_nonneg)
  then have "0 \<le> fl (1 - fl (rat_of_nat m / rat_of_nat n)) * 100" by simp
  then have "0 \<le> fl (fl (1 - fl (rat_of_nat m / rat_of_nat n)) * 100)" by (rule fl_nonneg)
  then show ?thesis by (rule Math_round_nonneg)
qed

lemma ratio_1000_100: "Math_round (fl (fl (1 - fl (100 / 1000)) * 100)) = 90"
  by code_simp

lemma ratio_201_202: "Math_round (fl (fl (1 - fl (202 / 201)) * 100)) = 0"
  by code_simp

lemma ratio_4_2: "Math_round (fl (fl (1 - fl (1 / 2)) * 100)) = 50"
  by code_simp

text \<open>The double result can differ from the exact rounding: 17 words of 40 give
  \<open>57.49999999999999\<close> and the ratio 57, where \<open>57.5\<close> would round to 58.\<close>

lemma ratio_40_17:
  "Math_round (fl (fl (1 - fl (17 / 40)) * 100)) = 57 \<and> round ((1 - 17 / 40) * 100 :: rat) = 58"
proof
  show "Math_round (fl (fl (1 - fl (17 / 40)) * 100)) = 57" by code_simp
  show "round ((1 - 17 / 40) * 100 :: rat) = 58" by (simp add: round_def floor_eq_iff)
qed

lemma split_ws_single: "\<not> isSpace c \<Longrightarrow> split_ws [c] = [[c]]"
  by (subst split_ws.simps) simp

lemma split_ws_word_space:
  assumes "\<not> isSpace c" and "isSpace sp" and "\<not> isSpace d"
  shows "split_ws (c # sp # d # ds) = [c] # split_ws (d # ds)"
  using assms by (subst split_ws.simps) simp

lemma split_ws_repeated:
  assumes "\<not> isSpace c" and "isSpace sp"
  shows "length (split_ws (concat (replicate n [c, sp]) @ [c])) = Suc n"
proof (induction n)
  case 0
  show ?case using assms by (simp add: split_ws_single)
next
  case (Suc n)
  obtain ds where ds: "concat (replicate n [c, sp]) @ [c] = c # ds"
    by (cases n) auto
  show ?case
    using Suc.IH assms unfolding ds
    by (simp add: ds split_ws_word_space)
qed

text \<open>
  Claim C2, as the code has it.  In a 200 response the compression ratio is
  \<open>Math.round((1 - m / n) * 100)\<close> in double arithmetic, where \<open>m\<close> and \<open>n\<close> are
  the summary and original word counts of the same response, both positive.  It is
  never positive when the summary has more words than the text, and it is negative
  only then.  For 100 and 1000 words it is 90.
\<close>

theorem compression_ratio:
  assumes "status (summarize_POST w request) = 200"
  shows "\<exists>m n. 0 < m \<and> 0 < n \<and>
     field (body (summarize_POST w request)) (js ''summaryWordCount'') = Some (JNum (int m)) \<and>
     field (body (summarize_POST w request)) (js ''originalWordCount'') = Some (JNum (int n)) \<and>
     field (body (summarize_POST w request)) (js ''compressionRatio'') =
       Some (JNum (Math_round (fl (fl (1 - fl (rat_of_nat m / rat_of_nat n)) * 100)))) \<and>
     (n < m \<longrightarrow> Math_round (fl (fl (1 - fl (rat_of_nat m / rat_of_nat n)) * 100)) \<le> 0) \<and>
     (Math_round (fl (fl (1 - fl (rat_of_nat m / rat_of_nat n)) * 100)) < 0 \<longrightarrow> n < m) \<and>
     (m = 100 \<and> n = 1000 \<longrightarrow>
        Math_round (fl (fl (1 - fl (rat_of_nat m / rat_of_nat n)) * 100)) = 90)"
proof -
  obtain t summary hl where b: "body (summarize_POST w request) = JObj
       [(js ''success'', JBool True),
        (js ''summary'', JStr summary),
        (js ''highlights'', hl),
        (js ''originalWordCount'', JNum (int (length (split_ws t)))),
        (js ''summaryWordCount'', JNum (int (length (split_ws summary)))),
        (js ''compressionRatio'',
           JNum (Math_round
             (fl (fl (1 - fl (of_nat (length (split_ws summary))
                                / of_nat (length (split_ws t)))) * 100))))]"
    using summarize_POST_ok [OF assms] by blast
  let ?m = "length (split_ws summary)" and ?n = "length (split_ws t)"
  let ?r = "Math_round (fl (fl (1 - fl (rat_of_nat ?m / rat_of_nat ?n)) * 100))"
  have m: "0 < ?m" and n: "0 < ?n" by (rule length_split_ws_pos)+
  have 1: "field (body (summarize_POST w request)) (js ''summaryWordCount'') = Some (JNum (int ?m))"
    unfolding b by (simp add: js_eq_iff)
  have 2: "field (body (summarize_POST w request)) (js ''originalWordCount'') = Some (JNum (int ?n))"
    unfolding b by (simp add: js_eq_iff)
  have 3: "field (body (summarize_POST w request)) (js ''compressionRatio'') = Some (JNum ?r)"
    unfolding b by (simp add: js_eq_iff)
  have 4: "?n < ?m \<longrightarrow> ?r \<le> 0"
    using ratio_nonpositive [OF n] by blast
  have 5: "?r < 0 \<longrightarrow> ?n < ?m"
    using ratio_nonnegative [OF n m] by fastforce
  have 6: "?m = 100 \<and> ?n = 1000 \<longrightarrow> ?r = 90"
    using ratio_1000_100 by auto
  from m n 1 2 3 4 5 6 show ?thesis by blast
qed

theorem compression_ratio_witness:
  "status (summarize_POST
      \<lparr>GOOGLE_AI_API_KEY = Some (js ''key''),
       generateContent = (\<lambda>p. Reply (js ''Two words'')),
       JSON_parse = (\<lambda>s. None),
       inheritedTone = (\<lambda>t. js ''undefined''),
       bigNumber = (\<lambda>n. js ''Infinity'')\<rparr>
      (Some \<lparr>req_text = Some (js ''one two three four''), req_summaryType = Some (js ''short''),
             req_customLength = None, req_tone = Some (js ''neutral'')\<rparr>)) = 200 \<and>
   field (body (summarize_POST
      \<lparr>GOOGLE_AI_API_KEY = Some (js ''key''),
       generateContent = (\<lambda>p. Reply (js ''Two words'')),
       JSON_parse = (\<lambda>s. None),
       inheritedTone = (\<lambda>t. js ''undefined''),
       bigNumber = (\<lambda>n. js ''Infinity'')\<rparr>
      (Some \<lparr>req_text = Some (js ''one two three four''), req_summaryType = Some (js ''short''),
             req_customLength = None, req_tone = Some (js ''neutral'')\<rparr>)))
     (js ''compressionRatio'') = Some (JNum 50)"
proof -
  let ?w = "\<lparr>GOOGLE_AI_API_KEY = Some (js ''key''),
       generateContent = (\<lambda>p. Reply (js ''Two words'')),
       JSON_parse = (\<lambda>s. None),
       inheritedTone = (\<lambda>t. js ''undefined''),
       bigNumber = (\<lambda>n. js ''Infinity'')\<rparr>"
  let ?r = "\<lparr>req_text = Some (js ''one two three four''), req_summaryType = Some (js ''short''),
             req_customLength = None, req_tone = Some (js ''neutral'')\<rparr>"
  have tr: "trim (js ''one two three four'') \<noteq> []"
    by (simp add: trim_empty_iff js_def isSpace_def)
  have k: "js ''key'' \<noteq> []" by (simp add: js_def)
  have c1: "length (split_ws (js ''one two three four'')) = 4" by code_simp
  have c2: "length (split_ws (js ''Two words'')) = 2" by code_simp
  have eq: "summarize_POST ?w (Some ?r) = json_response (JObj
                [(js ''success'', JBool True),
                 (js ''summary'', JStr (js ''Two words'')),
                 (js ''highlights'', extractHighlights (\<lambda>s. None) (Reply (js ''Two words''))),
                 (js ''originalWordCount'', JNum 4),
                 (js ''summaryWordCount'', JNum 2),
                 (js ''compressionRatio'', JNum 50)])"
    using summarize_POST_checked [of ?r "js ''one two three four''" ?w "js ''key''"] tr k
    by (simp add: c1 c2 ratio_4_2)
  have st: "status (summarize_POST ?w (Some ?r)) = 200"
    unfolding eq by (simp add: json_response_def)
  obtain m n where mn:
      "field (body (summarize_POST ?w (Some ?r))) (js ''summaryWordCount'') = Some (JNum (int m))"
      "field (body (summarize_POST ?w (Some ?r))) (js ''originalWordCount'') = Some (JNum (int n))"
      "field (body (summarize_POST ?w (Some ?r))) (js ''compressionRatio'') =
         Some (JNum (Math_round (fl (fl (1 - fl (rat_of_nat m / rat_of_nat n)) * 100))))"
    using compression_ratio [OF st] by blast
  have "m = 2" and "n = 4"
    using mn(1,2) unfolding eq by (simp_all add: json_response_def js_eq_iff)
  then have "field (body (summarize_POST ?w (Some ?r))) (js ''compressionRatio'') =
      Some (JNum (Math_round (fl (fl (1 - fl (1 / 2)) * 100))))"
    using mn(3) by simp
  then show ?thesis using st by (simp add: ratio_4_2)
qed

text \<open>
  Claim C2 as stated says that the ratio is negative whenever the summary has more
  words than the text.  A summary of 202 words of a text of 201 words has the
  ratio 0: \<open>Math.round\<close> of about \<open>-0.4975\<close>.
\<close>

theorem longer_summary_ratio_zero_counterexample:
  "field (body (summarize_POST
      \<lparr>GOOGLE_AI_API_KEY = Some (js ''key''),
       generateContent = (\<lambda>p. Reply (concat (replicate 201 (js ''b '')) @ js ''b'')),
       JSON_parse = (\<lambda>s. None),
       inheritedTone = (\<lambda>t. js ''undefined''),
       bigNumber = (\<lambda>n. js ''Infinity'')\<rparr>
      (Some \<lparr>req_text = Some (concat (replicate 200 (js ''a '')) @ js ''a''),
             req_summaryType = Some (js ''short''),
             req_customLength = None, req_tone = Some (js ''neutral'')\<rparr>)))
     (js ''originalWordCount'') = Some (JNum 201) \<and>
   field (body (summarize_POST
      \<lparr>GOOGLE_AI_API_KEY = Some (js ''key''),
       generateContent = (\<lambda>p. Reply (concat (replicate 201 (js ''b '')) @ js ''b'')),
       JSON_parse = (\<lambda>s. None),
       inheritedTone = (\<lambda>t. js ''undefined''),
       bigNumber = (\<lambda>n. js ''Infinity'')\<rparr>
      (Some \<lparr>req_text = Some (concat (replicate 200 (js ''a '')) @ js ''a''),
             req_summaryType = Some (js ''short''),
             req_customLength = None, req_tone = Some (js ''neutral'')\<rparr>)))
     (js ''summaryWordCount'') = Some (JNum 202) \<and>
   field (body (summarize_POST
      \<lparr>GOOGLE_AI_API_KEY = Some (js ''key''),
       generateContent = (\<lambda>p. Reply (concat (replicate 201 (js ''b '')) @ js ''b'')),
       JSON_parse = (\<lambda>s. None),
       inheritedTone = (\<lambda>t. js ''undefined''),
       bigNumber = (\<lambda>n. js ''Infinity'')\<rparr>
      (Some \<lparr>req_text = Some (concat (replicate 200 (js ''a '')) @ js ''a''),
             req_summaryType = Some (js ''short''),
             req_customLength = None, req_tone = Some (js ''neutral'')\<rparr>)))
     (js ''compressionRatio'') = Some (JNum 0)"
proof -
  let ?t = "concat (replicate 200 (js ''a '')) @ js ''a''"
  let ?s = "concat (replicate 201 (js ''b '')) @ js ''b''"
  let ?w = "\<lparr>GOOGLE_AI_API_KEY = Some (js ''key''),
       generateContent = (\<lambda>p. Reply ?s),
       JSON_parse = (\<lambda>s. None),
       inheritedTone = (\<lambda>t. js ''undefined''),
       bigNumber = (\<lambda>n. js ''Infinity'')\<rparr>"
  let ?r = "\<lparr>req_text = Some ?t, req_summaryType = Some (js ''short''),
             req_customLength = None, req_tone = Some (js ''neutral'')\<rparr>"
  have a: "js ''a '' = [0x61, 0x20]" "js ''a'' = [0x61]"
    and b: "js ''b '' = [0x62, 0x20]" "js ''b'' = [0x62]"
    by (simp_all add: js_def)
  have sp: "\<not> isSpace 0x61" "\<not> isSpace 0x62" "isSpace 0x20"
    by (simp_all add: isSpace_def)
  have ct: "length (split_ws ?t) = 201"
    unfolding a using split_ws_repeated [OF sp(1) sp(3), of 200] by simp
  have cs: "length (split_ws ?s) = 202"
    unfolding b using split_ws_repeated [OF sp(2) sp(3), of 201] by simp
  have "0x61 \<in> set ?t" unfolding a by simp
  then have tr: "trim ?t \<noteq> []"
    using sp(1) unfolding trim_empty_iff by blast
  have k: "js ''key'' \<noteq> []" by (simp add: js_def)
  have eq: "summarize_POST ?w (Some ?r) = json_response (JObj
                [(js ''success'', JBool True),
                 (js ''summary'', JStr ?s),
                 (js ''highlights'', extractHighlights (\<lambda>s. None) (Reply ?s)),
                 (js ''originalWordCount'', JNum 201),
                 (js ''summaryWordCount'', JNum 202),
                 (js ''compressionRatio'', JNum 0)])"
    using summarize_POST_checked [of ?r ?t ?w "js ''key''"] tr k
    by (simp add: ct cs ratio_201_202)
  show ?thesis
    unfolding eq by (simp add: json_response_def js_eq_iff)
qed

section \<open>Deleting a history item\<close>



text \<open>When the delete is rejected, nothing changes.\<close>

lemma deleteItem_rejected: "deleteDoc itemId (store st) = None \<Longrightarrow> deleteItem deleteDoc itemId st = st"
  by (simp add: deleteItem_def)

end
